theory Spec2Isabelle
  imports Complex_Main "HOL-Library.Word"
begin

section \<open>Data model\<close>

text \<open>
  The script \<^verbatim>\<open>scripts/vector_to_raster.py\<close> works on a GeoDataFrame: an ordered table
  of rows, each with a geometry (possibly null) and an integer column \<^verbatim>\<open>DN\<close>.
  A geometry is kept as its GeoJSON coordinate structure: a list of polygons, each a list
  of rings (the exterior ring first, then the holes), each ring a list of vertices.
  A single Polygon is the one-element list. Coordinates are 64-bit floats in the script;
  here a finite float is the real number it denotes, every arithmetic operation of the
  script is followed by the rounding to the nearest double, and the non-finite floats
  (\<^verbatim>\<open>nan\<close>, \<^verbatim>\<open>inf\<close>) are written out wherever the script can produce them.
\<close>

type_synonym point = "real \<times> real"
type_synonym ring = "point list"
type_synonym polygon = "ring list"
type_synonym geom = "polygon list"

record feature =
  geometry :: "geom option"
  DN :: int

type_synonym geodataframe = "feature list"

type_synonym bbox = "real \<times> real \<times> real \<times> real"

text \<open>
  Every failure of the script ends the process with exit status 1. The two deliberate
  exits of \<^verbatim>\<open>main\<close> (lines 509-512 and 519-522) are told apart by the message they print;
  the other failures are Python exceptions caught by the handler at line 569.
\<close>

datatype error =
    NoFeaturesAfterCropping
  | NoFeaturesAfterDNFilter int
  | ValueError string
  | OverflowError string

text \<open>
  A float that may be non-finite: \<open>None\<close> stands for \<^verbatim>\<open>nan\<close> or \<^verbatim>\<open>inf\<close>.
  The coefficients of an affine transform \<^verbatim>\<open>Affine(a, b, c, d, e, f)\<close> are such floats:
  a pixel (col, row) maps to \<^verbatim>\<open>(a*col + b*row + c, d*col + e*row + f)\<close>.
\<close>

type_synonym npfloat = "real option"

record affine =
  aff_a :: npfloat
  aff_b :: npfloat
  aff_c :: npfloat
  aff_d :: npfloat
  aff_e :: npfloat
  aff_f :: npfloat

text \<open>The raster: rows of unsigned 8-bit pixels (\<^verbatim>\<open>dtype=np.uint8\<close>), row 0 on top.\<close>

type_synonym raster = "8 word list list"

text \<open>
  Two geometric predicates are computed outside the script and are parameters of the
  model: the exact intersection test behind \<^verbatim>\<open>gdf.cx[...]\<close>, and the scan conversion of
  one geometry by the rasterizer, that is the pixels (row, col) it burns for the geometry
  (\<^verbatim>\<open>all_touched=False\<close>: the pixels whose centre, under the transform, lies inside the
  geometry; none for an empty geometry).
\<close>

type_synonym intersection = "geom \<Rightarrow> bbox \<Rightarrow> bool"
type_synonym coverage = "affine \<Rightarrow> geom \<Rightarrow> nat \<times> nat \<Rightarrow> bool"

section \<open>Filters\<close>

text \<open>\<^verbatim>\<open>filter_null_geometries\<close> (lines 143-163): \<^verbatim>\<open>gdf[gdf.geometry.notna()]\<close>.\<close>

definition filter_null_geometries :: "geodataframe \<Rightarrow> geodataframe" where
  "filter_null_geometries gdf = filter (\<lambda>f. geometry f \<noteq> None) gdf"

text \<open>
  \<^verbatim>\<open>crop_to_bbox\<close> (lines 166-196): no cropping when the box is \<^verbatim>\<open>None\<close>; otherwise the
  coordinate indexer keeps the rows whose geometry intersects the box.
\<close>

definition crop_to_bbox :: "intersection \<Rightarrow> geodataframe \<Rightarrow> bbox option \<Rightarrow> geodataframe" where
  "crop_to_bbox intersects gdf bbox =
     (case bbox of
        None \<Rightarrow> gdf
      | Some b \<Rightarrow>
          filter (\<lambda>f. case geometry f of None \<Rightarrow> False | Some g \<Rightarrow> intersects g b) gdf)"

text \<open>\<^verbatim>\<open>filter_by_dn_threshold\<close> (lines 199-221): \<^verbatim>\<open>gdf[gdf['DN'] >= threshold]\<close>.\<close>

definition filter_by_dn_threshold :: "geodataframe \<Rightarrow> int \<Rightarrow> geodataframe" where
  "filter_by_dn_threshold gdf threshold = filter (\<lambda>f. DN f \<ge> threshold) gdf"

text \<open>
  The count the function reports (lines 211, 216, 217):
  \<^verbatim>\<open>removed_count = initial_count - remaining_count\<close>.
\<close>

definition removed_count :: "geodataframe \<Rightarrow> int \<Rightarrow> nat" where
  "removed_count gdf threshold =
     (let initial_count = length gdf;
          remaining_count = length (filter_by_dn_threshold gdf threshold)
      in initial_count - remaining_count)"

section \<open>Double-precision arithmetic\<close>

text \<open>
  The rounding of a real number to the nearest IEEE 754 binary64 value, ties to even:
  53 significant bits, exponents from -1022 to 1023, gradual underflow below, and overflow
  to infinity (here \<open>None\<close>) from \<open>2 ^ 1024\<close> on.
\<close>

definition round_half_even :: "real \<Rightarrow> int" where
  "round_half_even z =
     (let f = \<lfloor>z\<rfloor>; d = z - of_int f
      in if d < 1 / 2 then f
         else if 1 / 2 < d then f + 1
         else if even f then f else f + 1)"

definition double_exponent :: "real \<Rightarrow> int" where
  "double_exponent x = Max (insert (- 1022) {k \<in> {- 1021..1023}. 2 powi k \<le> \<bar>x\<bar>})"

definition round_double :: "real \<Rightarrow> npfloat" where
  "round_double x =
     (let q = double_exponent x - 52;
          y = sgn x * of_int (round_half_even (\<bar>x\<bar> / 2 powi q)) * 2 powi q
      in if 2 powi 1024 \<le> \<bar>y\<bar> then None else Some y)"

text \<open>
  Subtraction and division of finite floats as numpy does them: the exact result, rounded;
  dividing by zero gives \<^verbatim>\<open>inf\<close> or \<^verbatim>\<open>nan\<close> and a warning, not an exception.
  Multiplying a non-finite float by zero gives \<^verbatim>\<open>nan\<close>.
\<close>

definition np_subtract :: "real \<Rightarrow> real \<Rightarrow> npfloat" where
  "np_subtract x y = round_double (x - y)"

definition np_divide :: "real \<Rightarrow> real \<Rightarrow> npfloat" where
  "np_divide x y = (if y = 0 then None else round_double (x / y))"

definition zero_times :: "npfloat \<Rightarrow> npfloat" where
  "zero_times x = (case x of None \<Rightarrow> None | Some _ \<Rightarrow> Some 0)"

section \<open>Raster parameters\<close>

text \<open>
  The bounds of one geometry: minimum and maximum over its vertices (for a polygon whose
  holes lie inside its exterior ring these are the bounds of the exterior ring);
  \<^verbatim>\<open>nan\<close> (here \<open>None\<close>) for a null or empty geometry.
\<close>

definition coords :: "geom \<Rightarrow> point list" where
  "coords g = concat (concat g)"

definition geom_bounds :: "geom option \<Rightarrow> bbox option" where
  "geom_bounds go =
     (case go of
        None \<Rightarrow> None
      | Some g \<Rightarrow>
          (case coords g of
             [] \<Rightarrow> None
           | p # ps \<Rightarrow>
               Some (fold min (map fst ps) (fst p), fold min (map snd ps) (snd p),
                     fold max (map fst ps) (fst p), fold max (map snd ps) (snd p))))"

text \<open>
  \<^verbatim>\<open>gdf.total_bounds\<close>: \<^verbatim>\<open>nanmin\<close> and \<^verbatim>\<open>nanmax\<close> over the rows' bounds, so rows without
  bounds are ignored; four \<^verbatim>\<open>nan\<close> when no row has bounds.
\<close>

definition total_bounds :: "geodataframe \<Rightarrow> bbox option" where
  "total_bounds gdf =
     (case List.map_filter (\<lambda>f. geom_bounds (geometry f)) gdf of
        [] \<Rightarrow> None
      | (x0, y0, x1, y1) # bs \<Rightarrow>
          Some (fold min (map (\<lambda>(a, b, c, d). a) bs) x0,
                fold min (map (\<lambda>(a, b, c, d). b) bs) y0,
                fold max (map (\<lambda>(a, b, c, d). c) bs) x1,
                fold max (map (\<lambda>(a, b, c, d). d) bs) y1))"

text \<open>
  \<^verbatim>\<open>rasterio.transform.from_bounds(west, south, east, north, width, height)\<close> is
  \<^verbatim>\<open>Affine.translation(west, north) * Affine.scale((east - west) / width, (south - north) / height)\<close>.
  The integer dimensions are converted to floats for the division.
\<close>

definition scale_factor :: "npfloat \<Rightarrow> int \<Rightarrow> npfloat" where
  "scale_factor extent n =
     (case (extent, round_double (of_int n)) of
        (Some d, Some m) \<Rightarrow> np_divide d m
      | _ \<Rightarrow> None)"

definition from_bounds :: "real \<Rightarrow> real \<Rightarrow> real \<Rightarrow> real \<Rightarrow> int \<Rightarrow> int \<Rightarrow> affine" where
  "from_bounds west south east north width height =
     (let sx = scale_factor (np_subtract east west) width;
          sy = scale_factor (np_subtract south north) height
      in \<lparr>aff_a = sx, aff_b = zero_times sy, aff_c = Some west,
          aff_d = zero_times sx, aff_e = sy, aff_f = Some north\<rparr>)"

text \<open>
  \<^verbatim>\<open>int(np.ceil(extent / resolution))\<close> (lines 245 and 246): \<^verbatim>\<open>int\<close> raises ValueError
  when the quotient is \<^verbatim>\<open>nan\<close> and OverflowError when it is infinite. The extent is a
  difference of finite floats, so it is finite or infinite.
\<close>

definition int_ceil_div :: "npfloat \<Rightarrow> real \<Rightarrow> error + int" where
  "int_ceil_div extent resolution =
     (case extent of
        None \<Rightarrow> Inl (OverflowError ''cannot convert float infinity to integer'')
      | Some x \<Rightarrow>
          if resolution = 0 then
            (if x = 0 then Inl (ValueError ''cannot convert float NaN to integer'')
             else Inl (OverflowError ''cannot convert float infinity to integer''))
          else
            (case np_divide x resolution of
               None \<Rightarrow> Inl (OverflowError ''cannot convert float infinity to integer'')
             | Some q \<Rightarrow> Inr \<lceil>q\<rceil>))"

text \<open>
  \<^verbatim>\<open>calculate_raster_params\<close> (lines 224-261); \<^verbatim>\<open>cols\<close> is computed before \<^verbatim>\<open>rows\<close>.
  Bounds that are \<^verbatim>\<open>nan\<close> make the first quotient \<^verbatim>\<open>nan\<close>. The size warning at line 254
  only prints.
\<close>

definition calculate_raster_params ::
  "geodataframe \<Rightarrow> real \<Rightarrow> error + (bbox \<times> (int \<times> int) \<times> affine)" where
  "calculate_raster_params gdf resolution =
     (case total_bounds gdf of
        None \<Rightarrow> Inl (ValueError ''cannot convert float NaN to integer'')
      | Some (minx, miny, maxx, maxy) \<Rightarrow>
          (let bounds = (minx, miny, maxx, maxy);
               width = np_subtract maxx minx;
               height = np_subtract maxy miny
           in case int_ceil_div width resolution of
                Inl e \<Rightarrow> Inl e
              | Inr cols \<Rightarrow>
                  (case int_ceil_div height resolution of
                     Inl e \<Rightarrow> Inl e
                   | Inr rows \<Rightarrow>
                       (let shape = (rows, cols);
                            transform = from_bounds minx miny maxx maxy cols rows
                        in Inr (bounds, shape, transform)))))"

section \<open>Rasterization\<close>

text \<open>The local function \<^verbatim>\<open>dn_to_category\<close> (lines 290-298).\<close>

definition dn_to_category :: "int \<Rightarrow> int" where
  "dn_to_category dn =
     (if dn = 253 then 1
      else if dn = 254 then 2
      else if dn = 255 then 3
      else 0)"

text \<open>
  The geometry-value pairs prepared at lines 280-301, in the order of the rows.
  \<^verbatim>\<open>int(dn)\<close> is the identity on an integer column.
\<close>

definition shapes_of :: "string \<Rightarrow> geodataframe \<Rightarrow> error + (geom option \<times> int) list" where
  "shapes_of value_type gdf =
     (if value_type = ''binary'' then
        Inr (map (\<lambda>f. (geometry f, 1)) gdf)
      else if value_type = ''original_dn'' then
        Inr (map (\<lambda>f. (geometry f, DN f)) gdf)
      else if value_type = ''categorical'' then
        Inr (map (\<lambda>f. (geometry f, dn_to_category (DN f))) gdf)
      else Inl (ValueError (''Unknown value_type: '' @ value_type)))"

text \<open>
  \<^verbatim>\<open>rasterio.features.rasterize\<close>, as the script calls it (\<^verbatim>\<open>dtype=np.uint8\<close>,
  \<^verbatim>\<open>all_touched=False\<close>, the default merge algorithm \<^verbatim>\<open>replace\<close>). The output array
  cannot be allocated with a negative dimension and is refused with a zero dimension. It
  starts as \<^verbatim>\<open>fill\<close> everywhere, and the shapes are burned in their order, a new value
  overwriting the existing one; a shape without geometry is passed over. A value outside
  the range of the dtype is not refused: it is burned saturated, 255 for a larger value
  and 0 for a negative one.
\<close>

definition saturate_uint8 :: "int \<Rightarrow> 8 word" where
  "saturate_uint8 v = word_of_int (max 0 (min 255 v))"

fun present_shapes :: "(geom option \<times> int) list \<Rightarrow> (geom \<times> int) list" where
  "present_shapes [] = []"
| "present_shapes ((None, v) # xs) = present_shapes xs"
| "present_shapes ((Some g, v) # xs) = (g, v) # present_shapes xs"

definition burn :: "coverage \<Rightarrow> affine \<Rightarrow> raster \<Rightarrow> geom \<times> int \<Rightarrow> raster" where
  "burn covers transform out s =
     map (\<lambda>r. map (\<lambda>c. if covers transform (fst s) (r, c) then saturate_uint8 (snd s)
                       else out ! r ! c)
                [0..<length (out ! r)])
         [0..<length out]"

definition rasterize ::
  "coverage \<Rightarrow> (geom option \<times> int) list \<Rightarrow> int \<times> int \<Rightarrow> affine \<Rightarrow> int
     \<Rightarrow> error + raster" where
  "rasterize covers shapes out_shape transform fill =
     (let rows = fst out_shape; cols = snd out_shape
      in if rows < 0 \<or> cols < 0 then
           Inl (ValueError ''negative dimensions are not allowed'')
         else if rows = 0 \<or> cols = 0 then
           Inl (ValueError ''width and height must be > 0'')
         else
           Inr (foldl (burn covers transform)
                  (replicate (nat rows) (replicate (nat cols) (saturate_uint8 fill)))
                  (present_shapes shapes)))"

text \<open>\<^verbatim>\<open>rasterize_polygons\<close> (lines 264-324); the statistics it prints are left out.\<close>

definition rasterize_polygons ::
  "coverage \<Rightarrow> geodataframe \<Rightarrow> affine \<Rightarrow> int \<times> int \<Rightarrow> string \<Rightarrow> error + raster" where
  "rasterize_polygons covers gdf transform shape value_type =
     (case shapes_of value_type gdf of
        Inl e \<Rightarrow> Inl e
      | Inr shapes \<Rightarrow> rasterize covers shapes shape transform 0)"

section \<open>The pipeline\<close>

text \<open>The configuration constants of lines 33-56 that the pipeline reads.\<close>

record config =
  CROP_BBOX :: "bbox option"
  DN_THRESHOLD :: int
  PIXEL_RESOLUTION :: real
  OUTPUT_VALUE_TYPE :: string
  NODATA_VALUE :: int
  COMPRESSION :: string
  CRS :: string

text \<open>The profile \<^verbatim>\<open>write_geotiff\<close> builds (lines 346-359).\<close>

record profile =
  prof_driver :: string
  prof_dtype :: string
  prof_count :: nat
  prof_width :: nat
  prof_height :: nat
  prof_transform :: affine
  prof_crs :: string
  prof_nodata :: int
  prof_compress :: string
  prof_tiled :: bool
  prof_blockxsize :: nat
  prof_blockysize :: nat

definition geotiff_profile :: "raster \<Rightarrow> affine \<Rightarrow> string \<Rightarrow> int \<Rightarrow> string \<Rightarrow> profile" where
  "geotiff_profile array transform crs nodata_value compression =
     \<lparr>prof_driver = ''GTiff'', prof_dtype = ''uint8'', prof_count = 1,
      prof_width = (case array of [] \<Rightarrow> 0 | row # _ \<Rightarrow> length row),
      prof_height = length array,
      prof_transform = transform, prof_crs = crs, prof_nodata = nodata_value,
      prof_compress = compression, prof_tiled = True,
      prof_blockxsize = 256, prof_blockysize = 256\<rparr>"

text \<open>
  The GeoTIFF writer (\<^verbatim>\<open>rasterio.open\<close> and \<^verbatim>\<open>dst.write\<close>, lines 362-370) is outside the
  script and a parameter of the model: given the profile and the array it either succeeds
  or raises, for instance when the \<^verbatim>\<open>nodata\<close> entry is outside the range of the dtype.
\<close>

type_synonym gtiff_writer = "profile \<Rightarrow> raster \<Rightarrow> error option"

text \<open>\<^verbatim>\<open>write_geotiff\<close> (lines 327-382): what was written, or the writer's exception.\<close>

definition write_geotiff ::
  "gtiff_writer \<Rightarrow> raster \<Rightarrow> affine \<Rightarrow> string \<Rightarrow> int \<Rightarrow> string \<Rightarrow> error + (profile \<times> raster)" where
  "write_geotiff writer array transform crs nodata_value compression =
     (let profile = geotiff_profile array transform crs nodata_value compression
      in case writer profile array of
           Some e \<Rightarrow> Inl e
         | None \<Rightarrow> Inr (profile, array))"

text \<open>
  \<^verbatim>\<open>main\<close> (lines 471-573) from the loaded GeoDataFrame to what is written: steps 2 to 7.
  Loading, the validation printouts, the preview and the report are input and output
  around these steps.
\<close>

definition main ::
  "intersection \<Rightarrow> coverage \<Rightarrow> gtiff_writer \<Rightarrow> config \<Rightarrow> geodataframe
     \<Rightarrow> error + (profile \<times> raster)" where
  "main intersects covers writer cfg loaded =
     (let gdf = filter_null_geometries loaded;
          gdf = crop_to_bbox intersects gdf (CROP_BBOX cfg)
      in if length gdf = 0 then Inl NoFeaturesAfterCropping
         else
           (let gdf = filter_by_dn_threshold gdf (DN_THRESHOLD cfg)
            in if length gdf = 0 then Inl (NoFeaturesAfterDNFilter (DN_THRESHOLD cfg))
               else
                 (case calculate_raster_params gdf (PIXEL_RESOLUTION cfg) of
                    Inl e \<Rightarrow> Inl e
                  | Inr (bounds, shape, transform) \<Rightarrow>
                      (case rasterize_polygons covers gdf transform shape
                              (OUTPUT_VALUE_TYPE cfg) of
                         Inl e \<Rightarrow> Inl e
                       | Inr raster_array \<Rightarrow>
                           write_geotiff writer raster_array transform (CRS cfg)
                             (NODATA_VALUE cfg) (COMPRESSION cfg)))))"

section \<open>Notions of the specification\<close>

text \<open>
  A feature's footprint claims a pixel when the rasterizer burns that pixel for it: the
  geometry is present and the pixel's centre lies inside it.
\<close>

definition footprint_claims :: "coverage \<Rightarrow> affine \<Rightarrow> feature \<Rightarrow> nat \<times> nat \<Rightarrow> bool" where
  "footprint_claims covers transform f p =
     (case geometry f of
        None \<Rightarrow> False
      | Some g \<Rightarrow> covers transform g p)"

text \<open>
  The union bounding box in the specification's words: the element-wise minimum and
  maximum over all vertices of all geometries of the collection.
\<close>

definition all_vertices :: "geodataframe \<Rightarrow> point list" where
  "all_vertices gdf =
     concat (map (\<lambda>f. case geometry f of None \<Rightarrow> [] | Some g \<Rightarrow> coords g) gdf)"

definition union_bbox :: "geodataframe \<Rightarrow> bbox" where
  "union_bbox gdf =
     (let vs = all_vertices gdf
      in (Min (set (map fst vs)), Min (set (map snd vs)),
          Max (set (map fst vs)), Max (set (map snd vs))))"

text \<open>The geometries of a collection that have at least one vertex.\<close>

definition vertex_geoms :: "geodataframe \<Rightarrow> geom set" where
  "vertex_geoms gdf = {g. \<exists>f \<in> set gdf. geometry f = Some g \<and> coords g \<noteq> []}"

section \<open>Sample inputs\<close>

text \<open>
  Concrete inputs for the examples below: an axis-aligned rectangle as a one-ring polygon,
  and instances of the parameters: a coverage and an intersection test that are exact on
  such rectangles (the pixel centre lies in the rectangle, left and bottom edges included;
  the rectangle and the box overlap), and a writer that refuses a \<^verbatim>\<open>nodata\<close> entry outside
  0..255 and accepts everything else.
\<close>

definition rectangle :: "real \<Rightarrow> real \<Rightarrow> real \<Rightarrow> real \<Rightarrow> geom" where
  "rectangle x0 y0 x1 y1 = [[[(x0, y0), (x1, y0), (x1, y1), (x0, y1), (x0, y0)]]]"

definition rect_covers :: coverage where
  "rect_covers transform g p =
     (case (aff_a transform, aff_c transform, aff_e transform, aff_f transform,
            geom_bounds (Some g)) of
        (Some a, Some c, Some e, Some f, Some (x0, y0, x1, y1)) \<Rightarrow>
          (let x = a * (real (snd p) + 1 / 2) + c;
               y = e * (real (fst p) + 1 / 2) + f
           in x0 \<le> x \<and> x < x1 \<and> y0 \<le> y \<and> y < y1)
      | _ \<Rightarrow> False)"

definition rect_intersects :: intersection where
  "rect_intersects g b =
     (case (geom_bounds (Some g), b) of
        (Some (x0, y0, x1, y1), (bx0, by0, bx1, by1)) \<Rightarrow>
          x0 \<le> bx1 \<and> bx0 \<le> x1 \<and> y0 \<le> by1 \<and> by0 \<le> y1
      | _ \<Rightarrow> False)"

definition range_writer :: gtiff_writer where
  "range_writer prof array =
     (if prof_nodata prof < 0 \<or> 255 < prof_nodata prof then
        Some (ValueError ''Given nodata value is beyond the valid range of its data type'')
      else None)"

text \<open>
  Features on the extent (0, 0)-(100, 100), which a resolution of 50 divides into a grid of
  2 by 2 pixels: \<open>feature_A\<close> covers the whole extent, \<open>feature_B\<close> the lower right
  pixel, \<open>feature_D\<close> the upper left pixel, \<open>feature_X\<close> the lower left pixel with a DN
  of 300, \<open>feature_M\<close> the lower right pixel with a DN of -1; \<open>feature_N\<close> has no
  geometry. \<open>feature_L\<close> is degenerate, all its vertices on one vertical line;
  \<open>feature_S\<close> is a square of side 75 and \<open>feature_T\<close> a square of side 3.
  \<open>double_0_3\<close> is the double nearest to 0.3.
\<close>

definition feature_A :: feature where
  "feature_A = \<lparr>geometry = Some (rectangle 0 0 100 100), DN = 253\<rparr>"

definition feature_B :: feature where
  "feature_B = \<lparr>geometry = Some (rectangle 50 0 100 50), DN = 255\<rparr>"

definition feature_D :: feature where
  "feature_D = \<lparr>geometry = Some (rectangle 0 50 50 100), DN = 253\<rparr>"

definition feature_X :: feature where
  "feature_X = \<lparr>geometry = Some (rectangle 0 0 50 50), DN = 300\<rparr>"

definition feature_M :: feature where
  "feature_M = \<lparr>geometry = Some (rectangle 50 0 100 50), DN = - 1\<rparr>"

definition feature_N :: feature where
  "feature_N = \<lparr>geometry = None, DN = 250\<rparr>"

definition feature_L :: feature where
  "feature_L = \<lparr>geometry = Some [[[(0, 0), (0, 100), (0, 50), (0, 0)]]], DN = 255\<rparr>"

definition feature_S :: feature where
  "feature_S = \<lparr>geometry = Some (rectangle 0 0 75 75), DN = 255\<rparr>"

definition feature_T :: feature where
  "feature_T = \<lparr>geometry = Some (rectangle 0 0 3 3), DN = 255\<rparr>"

definition double_0_3 :: real where
  "double_0_3 = 5404319552844595 / 18014398509481984"

definition grid_2x2 :: affine where
  "grid_2x2 = \<lparr>aff_a = Some 50, aff_b = Some 0, aff_c = Some 0,
               aff_d = Some 0, aff_e = Some (- 50), aff_f = Some 100\<rparr>"

text \<open>The configuration as the script sets it (lines 40-56).\<close>

definition script_config :: config where
  "script_config =
     \<lparr>CROP_BBOX = None, DN_THRESHOLD = 253, PIXEL_RESOLUTION = 50,
      OUTPUT_VALUE_TYPE = ''original_dn'', NODATA_VALUE = 0, COMPRESSION = ''lzw'',
      CRS = ''EPSG:32631''\<rparr>"

section \<open>Auxiliary facts\<close>

subsection \<open>Rounding to doubles\<close>

lemma finite_exponents:
  "finite (insert (- 1022) {k \<in> {- 1021..1023}. 2 powi k \<le> \<bar>x::real\<bar>})"
proof -
  have "finite {k \<in> {- 1021..1023::int}. 2 powi k \<le> \<bar>x\<bar>}"
    by (rule finite_subset [of _ "{- 1021..1023}"]) auto
  then show ?thesis by simp
qed

lemma double_exponent_lower: "- 1022 \<le> double_exponent x"
  unfolding double_exponent_def using finite_exponents by (rule Max_ge) simp

lemma two_powi_less_imp: "(2::real) powi j < 2 powi k \<Longrightarrow> j < k"
proof (rule ccontr)
  assume less: "(2::real) powi j < 2 powi k" and "\<not> j < k"
  then have "k \<le> j" by simp
  then have "(2::real) powi k \<le> 2 powi j" by (intro power_int_increasing) simp_all
  with less show False by simp
qed

lemma double_exponent_upper:
  assumes "\<bar>x\<bar> < 2 powi (k + 1)" and "- 1022 \<le> k"
  shows "double_exponent x \<le> k"
proof -
  have "j \<le> k" if "2 powi j \<le> \<bar>x\<bar>" for j :: int
  proof -
    from that assms(1) have "(2::real) powi j < 2 powi (k + 1)" by simp
    then have "j < k + 1" by (rule two_powi_less_imp)
    then show ?thesis by simp
  qed
  with assms(2)
  have "\<forall>j \<in> insert (- 1022) {k \<in> {- 1021..1023}. 2 powi k \<le> \<bar>x\<bar>}. j \<le> k" by auto
  then show ?thesis unfolding double_exponent_def
    using finite_exponents by (subst Max_le_iff) simp_all
qed

lemma double_exponent_reached:
  assumes "2 powi k \<le> \<bar>x\<bar>" and "- 1022 \<le> k" and "k \<le> 1023"
  shows "k \<le> double_exponent x"
proof -
  from assms have "k \<in> insert (- 1022) {k \<in> {- 1021..1023}. 2 powi k \<le> \<bar>x\<bar>}" by auto
  with finite_exponents show ?thesis unfolding double_exponent_def by (rule Max_ge)
qed

lemma double_exponent_eq:
  assumes "2 powi k \<le> \<bar>x\<bar>" and "\<bar>x\<bar> < 2 powi (k + 1)" and "- 1022 \<le> k" and "k \<le> 1023"
  shows "double_exponent x = k"
  using double_exponent_upper [OF assms(2,3)] double_exponent_reached [OF assms(1,3,4)] by simp

lemma round_half_even_of_int: "round_half_even (of_int n) = n"
  by (simp add: round_half_even_def)

lemma round_half_even_nonneg: "0 \<le> z \<Longrightarrow> 0 \<le> round_half_even z"
  by (auto simp: round_half_even_def Let_def)

lemma round_double_sign:
  assumes "round_double x = Some y"
  shows "(0 \<le> x \<longrightarrow> 0 \<le> y) \<and> (x \<le> 0 \<longrightarrow> y \<le> 0)"
proof -
  let ?q = "double_exponent x - 52"
  let ?m = "round_half_even (\<bar>x\<bar> / 2 powi ?q)"
  have m: "0 \<le> ?m" by (intro round_half_even_nonneg) simp
  from assms have y: "y = sgn x * of_int ?m * 2 powi ?q"
    by (simp add: round_double_def Let_def split: if_splits)
  have p: "(0::real) \<le> of_int ?m * 2 powi ?q" using m by simp
  show ?thesis
  proof (intro conjI impI)
    assume "0 \<le> x"
    then have "0 \<le> sgn x" by simp
    from this p have "0 \<le> sgn x * (of_int ?m * 2 powi ?q)" by (rule mult_nonneg_nonneg)
    then show "0 \<le> y" unfolding y by (simp add: mult.assoc)
  next
    assume "x \<le> 0"
    then have "sgn x \<le> 0" by simp
    from this p have "sgn x * (of_int ?m * 2 powi ?q) \<le> 0" by (rule mult_nonpos_nonneg)
    then show "y \<le> 0" unfolding y by (simp add: mult.assoc)
  qed
qed

lemma round_double_zero: "round_double 0 = Some 0"
  by (simp add: round_double_def)

lemma round_double_exact:
  assumes x: "x = of_int m * 2 powi q" and m: "\<bar>m\<bar> < 2 ^ 53" and q: "- 1074 \<le> q" "q \<le> 971"
  shows "round_double x = Some x"
proof -
  let ?e = "double_exponent x"
  have absx: "\<bar>x\<bar> = of_int \<bar>m\<bar> * 2 powi q" unfolding x by (simp add: abs_mult)
  also have "\<dots> < 2 ^ 53 * 2 powi q"
  proof -
    have "(of_int \<bar>m\<bar> :: real) < of_int (2 ^ 53)" using m by (simp only: of_int_less_iff)
    then show ?thesis by simp
  qed
  also have "\<dots> = 2 powi (q + 52 + 1)" by (simp add: power_int_add)
  finally have bound: "\<bar>x\<bar> < 2 powi (q + 52 + 1)" .
  have "?e \<le> q + 52" using bound q(1) by (intro double_exponent_upper) simp_all
  then have d: "0 \<le> q - (?e - 52)" by simp
  have "\<bar>x\<bar> / 2 powi (?e - 52) = of_int \<bar>m\<bar> * 2 powi (q - (?e - 52))"
    unfolding x by (simp add: abs_mult power_int_diff)
  also have "\<dots> = of_int (\<bar>m\<bar> * 2 ^ nat (q - (?e - 52)))"
    using d by (simp add: power_int_nonneg_exp)
  finally have "round_half_even (\<bar>x\<bar> / 2 powi (?e - 52)) = \<bar>m\<bar> * 2 ^ nat (q - (?e - 52))"
    by (simp only: round_half_even_of_int)
  then have "sgn x * of_int (round_half_even (\<bar>x\<bar> / 2 powi (?e - 52))) * 2 powi (?e - 52)
             = sgn x * (of_int \<bar>m\<bar> * 2 powi (q - (?e - 52)) * 2 powi (?e - 52))"
    using d by (simp add: power_int_nonneg_exp)
  also have "of_int \<bar>m\<bar> * 2 powi (q - (?e - 52)) * 2 powi (?e - 52)
             = (of_int \<bar>m\<bar> * 2 powi q :: real)"
    by (simp add: power_int_diff)
  also have "sgn x * (of_int \<bar>m\<bar> * 2 powi q) = x"
    unfolding absx [symmetric] by (rule sgn_mult_abs)
  finally have y: "sgn x * of_int (round_half_even (\<bar>x\<bar> / 2 powi (?e - 52))) * 2 powi (?e - 52)
                   = x" .
  have "\<bar>x\<bar> < 2 powi 1024"
  proof -
    have "(2::real) powi (q + 52 + 1) \<le> 2 powi 1024"
      using q(2) by (intro power_int_increasing) simp_all
    with bound show ?thesis by simp
  qed
  with y show ?thesis by (simp add: round_double_def Let_def del: power_int_numeral)
qed

lemma round_double_int:
  assumes "\<bar>n\<bar> < 2 ^ 53"
  shows "round_double (of_int n) = Some (of_int n)"
  using round_double_exact [of "of_int n" n 0] assms by simp

lemma round_double_half:
  assumes "\<bar>n\<bar> < 2 ^ 53"
  shows "round_double (of_int n / 2) = Some (of_int n / 2)"
  using round_double_exact [of "of_int n / 2" n "- 1"] assms by (simp add: power_int_minus_divide)

lemma round_double_normal:
  assumes "2 powi k \<le> \<bar>x\<bar>" and "\<bar>x\<bar> < 2 powi (k + 1)" and "- 1022 \<le> k" and "k \<le> 1023"
  shows "round_double x =
           (let y = sgn x * of_int (round_half_even (\<bar>x\<bar> / 2 powi (k - 52))) * 2 powi (k - 52)
            in if 2 powi 1024 \<le> \<bar>y\<bar> then None else Some y)"
  by (simp only: round_double_def double_exponent_eq [OF assms] Let_def)

lemma np_subtract_self: "np_subtract x x = Some 0"
  by (simp add: np_subtract_def round_double_zero)

lemma np_divide_zero: "r \<noteq> 0 \<Longrightarrow> np_divide 0 r = Some 0"
  by (simp add: np_divide_def round_double_zero)

text \<open>The doubles that the examples compute with.\<close>

lemma double_ints:
  "round_double 2 = Some 2" "round_double 3 = Some 3" "round_double 10 = Some 10"
  "round_double 50 = Some 50" "round_double 75 = Some 75" "round_double 100 = Some 100"
  "round_double (- 2) = Some (- 2)" "round_double (- 3) = Some (- 3)"
  "round_double (- 50) = Some (- 50)" "round_double (- 75) = Some (- 75)"
  "round_double (- 100) = Some (- 100)"
  using round_double_int [of 2] round_double_int [of 3] round_double_int [of 10]
    round_double_int [of 50] round_double_int [of 75] round_double_int [of 100]
    round_double_int [of "- 2"] round_double_int [of "- 3"]
    round_double_int [of "- 50"] round_double_int [of "- 75"] round_double_int [of "- 100"]
  by simp_all

lemma double_halves:
  "round_double (3 / 2) = Some (3 / 2)" "round_double (75 / 2) = Some (75 / 2)"
  "round_double (- (75 / 2)) = Some (- (75 / 2))"
  using round_double_half [of 3] round_double_half [of 75] round_double_half [of "- 75"]
  by simp_all


lemma three_tenths: "round_double (3 / 10) = Some double_0_3"
proof -
  have "round_double (3 / 10) =
          (let y = sgn (3 / 10 :: real)
                   * of_int (round_half_even (\<bar>3 / 10\<bar> / 2 powi (- 2 - 52))) * 2 powi (- 2 - 52)
           in if 2 powi 1024 \<le> \<bar>y\<bar> then None else Some y)"
    by (rule round_double_normal) simp_all
  also have "\<dots> = Some double_0_3"
    by (simp add: double_0_3_def round_half_even_def Let_def power_int_minus_divide)
  finally show ?thesis .
qed

lemma minus_three_tenths: "round_double (- (3 / 10)) = Some (- double_0_3)"
proof -
  have "round_double (- (3 / 10)) =
          (let y = sgn (- (3 / 10) :: real)
                   * of_int (round_half_even (\<bar>- (3 / 10)\<bar> / 2 powi (- 2 - 52))) * 2 powi (- 2 - 52)
           in if 2 powi 1024 \<le> \<bar>y\<bar> then None else Some y)"
    by (rule round_double_normal) simp_all
  also have "\<dots> = Some (- double_0_3)"
    by (simp add: double_0_3_def round_half_even_def Let_def power_int_minus_divide)
  finally show ?thesis .
qed

subsection \<open>The burn loop\<close>

lemma burn_length: "length (burn cv tr out s) = length out"
  by (simp add: burn_def)

lemma burn_row_length: "r < length out \<Longrightarrow> length (burn cv tr out s ! r) = length (out ! r)"
  by (simp add: burn_def)

lemma burn_nth:
  "r < length out \<Longrightarrow> c < length (out ! r) \<Longrightarrow>
   burn cv tr out s ! r ! c = (if cv tr (fst s) (r, c) then saturate_uint8 (snd s) else out ! r ! c)"
  by (simp add: burn_def)

lemma foldl_burn_dims:
  "length (foldl (burn cv tr) out ss) = length out \<and>
   (\<forall>r < length out. length (foldl (burn cv tr) out ss ! r) = length (out ! r))"
proof (induction ss arbitrary: out)
  case Nil
  show ?case by simp
next
  case (Cons s ss)
  show ?case using Cons.IH [of "burn cv tr out s"]
    by (simp add: burn_length burn_row_length)
qed

lemma foldl_burn_unclaimed:
  "r < length out \<Longrightarrow> c < length (out ! r) \<Longrightarrow> \<forall>s \<in> set ss. \<not> cv tr (fst s) (r, c) \<Longrightarrow>
   foldl (burn cv tr) out ss ! r ! c = out ! r ! c"
proof (induction ss arbitrary: out)
  case Nil
  show ?case by simp
next
  case (Cons s ss)
  have "foldl (burn cv tr) (burn cv tr out s) ss ! r ! c = burn cv tr out s ! r ! c"
    using Cons.prems by (intro Cons.IH) (simp_all add: burn_length burn_row_length)
  also have "\<dots> = out ! r ! c"
    using Cons.prems by (simp add: burn_nth)
  finally show ?case by simp
qed

lemma foldl_burn_last:
  assumes "r < length out" and "c < length (out ! r)"
    and "cv tr g (r, c)"
    and "\<forall>s \<in> set post. \<not> cv tr (fst s) (r, c)"
  shows "foldl (burn cv tr) out (pre @ (g, v) # post) ! r ! c = saturate_uint8 v"
proof -
  let ?mid = "foldl (burn cv tr) out pre"
  have dims: "r < length ?mid" "c < length (?mid ! r)"
    using assms(1,2) foldl_burn_dims [of cv tr out pre] by simp_all
  have "foldl (burn cv tr) out (pre @ (g, v) # post) ! r ! c
        = foldl (burn cv tr) (burn cv tr ?mid (g, v)) post ! r ! c"
    by simp
  also have "\<dots> = burn cv tr ?mid (g, v) ! r ! c"
    using dims assms(4) by (intro foldl_burn_unclaimed) (simp_all add: burn_length burn_row_length)
  also have "\<dots> = saturate_uint8 v"
    using dims assms(3) by (simp add: burn_nth)
  finally show ?thesis .
qed

lemma present_shapes_append: "present_shapes (xs @ ys) = present_shapes xs @ present_shapes ys"
  by (induction xs rule: present_shapes.induct) simp_all

lemma present_shapes_set: "(g, v) \<in> set (present_shapes xs) \<longleftrightarrow> (Some g, v) \<in> set xs"
  by (induction xs rule: present_shapes.induct) auto

lemma rasterize_positive:
  assumes "0 < fst shape" and "0 < snd shape"
  shows "rasterize cv shapes shape tr fill
         = Inr (foldl (burn cv tr)
                  (replicate (nat (fst shape)) (replicate (nat (snd shape)) (saturate_uint8 fill)))
                  (present_shapes shapes))"
  using assms by (simp add: rasterize_def Let_def)

lemma rasterize_Inr:
  assumes "rasterize cv shapes shape tr fill = Inr arr"
  shows "0 < fst shape \<and> 0 < snd shape
         \<and> arr = foldl (burn cv tr)
                  (replicate (nat (fst shape)) (replicate (nat (snd shape)) (saturate_uint8 fill)))
                  (present_shapes shapes)"
proof -
  have pos: "0 < fst shape \<and> 0 < snd shape"
  proof (rule ccontr)
    assume "\<not> (0 < fst shape \<and> 0 < snd shape)"
    then consider "fst shape < 0 \<or> snd shape < 0"
      | "\<not> (fst shape < 0 \<or> snd shape < 0)" "fst shape = 0 \<or> snd shape = 0"
      by fastforce
    then show False
    proof cases
      case 1
      then have "rasterize cv shapes shape tr fill
                 = Inl (ValueError ''negative dimensions are not allowed'')"
        by (simp add: rasterize_def Let_def)
      with assms show False by simp
    next
      case 2
      then have "rasterize cv shapes shape tr fill
                 = Inl (ValueError ''width and height must be > 0'')"
        by (simp add: rasterize_def Let_def)
      with assms show False by simp
    qed
  qed
  with assms rasterize_positive [of shape cv shapes tr fill] show ?thesis by simp
qed

lemma present_shapes_split:
  assumes "geometry B = Some g"
  shows "present_shapes (map (\<lambda>f. (geometry f, enc f)) (pre @ B # post))
         = present_shapes (map (\<lambda>f. (geometry f, enc f)) pre) @ (g, enc B)
           # present_shapes (map (\<lambda>f. (geometry f, enc f)) post)"
  using assms by (simp add: present_shapes_append)

lemma present_shapes_unclaimed:
  assumes "\<forall>f \<in> set fs. \<not> footprint_claims cv tr f p"
  shows "\<forall>s \<in> set (present_shapes (map (\<lambda>f. (geometry f, enc f)) fs)). \<not> cv tr (fst s) p"
proof
  fix s assume s: "s \<in> set (present_shapes (map (\<lambda>f. (geometry f, enc f)) fs))"
  obtain g v where gv: "s = (g, v)" by (cases s)
  from s gv have "(Some g, v) \<in> set (map (\<lambda>f. (geometry f, enc f)) fs)"
    by (simp add: present_shapes_set)
  then obtain f where f: "f \<in> set fs" "geometry f = Some g" by auto
  with assms have "\<not> footprint_claims cv tr f p" by blast
  with f show "\<not> cv tr (fst s) p" by (simp add: footprint_claims_def gv)
qed

lemma foldl_burn_last_claim:
  assumes order: "gdf = pre @ B # post"
    and B: "footprint_claims cv tr B (r, c)"
    and last: "\<forall>f \<in> set post. \<not> footprint_claims cv tr f (r, c)"
    and inside: "r < length out" "c < length (out ! r)"
  shows "foldl (burn cv tr) out (present_shapes (map (\<lambda>f. (geometry f, enc f)) gdf)) ! r ! c
         = saturate_uint8 (enc B)"
proof -
  from B obtain g where g: "geometry B = Some g" "cv tr g (r, c)"
    by (auto simp: footprint_claims_def split: option.splits)
  let ?sh = "\<lambda>fs. present_shapes (map (\<lambda>f. (geometry f, enc f)) fs)"
  have split: "?sh gdf = ?sh pre @ (g, enc B) # ?sh post"
    unfolding order using g(1) by (rule present_shapes_split)
  show ?thesis
    unfolding split
    using inside g(2) present_shapes_unclaimed [OF last] by (rule foldl_burn_last)
qed

lemma rasterize_last_claim:
  assumes ok: "rasterize cv (map (\<lambda>f. (geometry f, enc f)) gdf) shape tr fill = Inr arr"
    and order: "gdf = pre @ B # post"
    and B: "footprint_claims cv tr B (r, c)"
    and last: "\<forall>f \<in> set post. \<not> footprint_claims cv tr f (r, c)"
    and inside: "int r < fst shape" "int c < snd shape"
  shows "arr ! r ! c = saturate_uint8 (enc B)"
proof -
  let ?init = "replicate (nat (fst shape)) (replicate (nat (snd shape)) (saturate_uint8 fill))"
  from rasterize_Inr [OF ok]
  have arr: "arr = foldl (burn cv tr) ?init
                     (present_shapes (map (\<lambda>f. (geometry f, enc f)) gdf))"
    by simp
  have r: "r < length ?init" using inside by simp
  then have c: "c < length (?init ! r)" using inside by simp
  show ?thesis unfolding arr using order B last r c by (rule foldl_burn_last_claim)
qed

lemma rasterize_unclaimed:
  assumes ok: "rasterize cv (map (\<lambda>f. (geometry f, enc f)) gdf) shape tr fill = Inr arr"
    and none: "\<forall>f \<in> set gdf. \<not> footprint_claims cv tr f (r, c)"
    and inside: "int r < fst shape" "int c < snd shape"
  shows "arr ! r ! c = saturate_uint8 fill"
proof -
  let ?init = "replicate (nat (fst shape)) (replicate (nat (snd shape)) (saturate_uint8 fill))"
  from rasterize_Inr [OF ok]
  have arr: "arr = foldl (burn cv tr) ?init
                     (present_shapes (map (\<lambda>f. (geometry f, enc f)) gdf))"
    by simp
  have r: "r < length ?init" using inside by simp
  then have c: "c < length (?init ! r)" using inside by simp
  have "arr ! r ! c = ?init ! r ! c"
    unfolding arr using r c present_shapes_unclaimed [OF none] by (rule foldl_burn_unclaimed)
  then show ?thesis using inside by simp
qed

lemma rasterize_dims:
  assumes ok: "rasterize cv shapes shape tr fill = Inr arr"
  shows "length arr = nat (fst shape) \<and> (\<forall>r < length arr. length (arr ! r) = nat (snd shape))
         \<and> 0 < fst shape \<and> 0 < snd shape"
proof -
  let ?init = "replicate (nat (fst shape)) (replicate (nat (snd shape)) (saturate_uint8 fill))"
  from rasterize_Inr [OF ok]
  have arr: "arr = foldl (burn cv tr) ?init (present_shapes shapes)"
    and pos: "0 < fst shape" "0 < snd shape"
    by simp_all
  show ?thesis
    unfolding arr using foldl_burn_dims [of cv tr ?init "present_shapes shapes"] pos by simp
qed

lemma rasterize_polygons_binary:
  "rasterize_polygons cv gdf tr shape ''binary''
   = rasterize cv (map (\<lambda>f. (geometry f, 1)) gdf) shape tr 0"
  by (simp add: rasterize_polygons_def shapes_of_def)

lemma rasterize_polygons_original_dn:
  "rasterize_polygons cv gdf tr shape ''original_dn''
   = rasterize cv (map (\<lambda>f. (geometry f, DN f)) gdf) shape tr 0"
  by (simp add: rasterize_polygons_def shapes_of_def)

lemma rasterize_polygons_categorical:
  "rasterize_polygons cv gdf tr shape ''categorical''
   = rasterize cv (map (\<lambda>f. (geometry f, dn_to_category (DN f))) gdf) shape tr 0"
  by (simp add: rasterize_polygons_def shapes_of_def)

lemma rasterize_polygons_unknown:
  assumes "vt \<noteq> ''binary''" and "vt \<noteq> ''original_dn''" and "vt \<noteq> ''categorical''"
  shows "rasterize_polygons cv gdf tr shape vt = Inl (ValueError (''Unknown value_type: '' @ vt))"
  using assms by (simp add: rasterize_polygons_def shapes_of_def)

lemma rasterize_polygons_Inr:
  assumes "rasterize_polygons cv gdf tr shape vt = Inr arr"
  shows "(vt = ''binary'' \<and> rasterize cv (map (\<lambda>f. (geometry f, 1)) gdf) shape tr 0 = Inr arr)
       \<or> (vt = ''original_dn''
           \<and> rasterize cv (map (\<lambda>f. (geometry f, DN f)) gdf) shape tr 0 = Inr arr)
       \<or> (vt = ''categorical''
           \<and> rasterize cv (map (\<lambda>f. (geometry f, dn_to_category (DN f))) gdf) shape tr 0
             = Inr arr)"
proof -
  consider "vt = ''binary''" | "vt = ''original_dn''" | "vt = ''categorical''"
    | "vt \<noteq> ''binary''" "vt \<noteq> ''original_dn''" "vt \<noteq> ''categorical''" by blast
  then show ?thesis
  proof cases
    case 1
    with assms show ?thesis by (simp add: rasterize_polygons_binary)
  next
    case 2
    with assms show ?thesis by (simp add: rasterize_polygons_original_dn)
  next
    case 3
    with assms show ?thesis by (simp add: rasterize_polygons_categorical)
  next
    case 4
    from rasterize_polygons_unknown [OF this] assms show ?thesis by simp
  qed
qed

lemma uint_saturate_uint8: "uint (saturate_uint8 v) = max 0 (min 255 v)"
proof -
  have "0 \<le> max 0 (min 255 v)" "max 0 (min 255 v) < 2 ^ 8" by simp_all
  then show ?thesis
    unfolding saturate_uint8_def by (simp add: uint_word_of_int take_bit_int_eq_self)
qed

lemma saturate_uint8_zero: "saturate_uint8 0 = 0"
  by (simp add: saturate_uint8_def)

lemma rasterize_polygons_unclaimed:
  assumes ok: "rasterize_polygons cv gdf tr shape vt = Inr arr"
    and none: "\<forall>f \<in> set gdf. \<not> footprint_claims cv tr f (r, c)"
    and inside: "int r < fst shape" "int c < snd shape"
  shows "arr ! r ! c = 0"
  using rasterize_polygons_Inr [OF ok]
proof (elim disjE conjE)
  assume "rasterize cv (map (\<lambda>f. (geometry f, 1)) gdf) shape tr 0 = Inr arr"
  from rasterize_unclaimed [OF this none inside] show ?thesis by (simp add: saturate_uint8_zero)
next
  assume "rasterize cv (map (\<lambda>f. (geometry f, DN f)) gdf) shape tr 0 = Inr arr"
  from rasterize_unclaimed [OF this none inside] show ?thesis by (simp add: saturate_uint8_zero)
next
  assume "rasterize cv (map (\<lambda>f. (geometry f, dn_to_category (DN f))) gdf) shape tr 0 = Inr arr"
  from rasterize_unclaimed [OF this none inside] show ?thesis by (simp add: saturate_uint8_zero)
qed

lemma rasterize_polygons_dims:
  assumes ok: "rasterize_polygons cv gdf tr shape vt = Inr arr"
  shows "length arr = nat (fst shape) \<and> (\<forall>r < length arr. length (arr ! r) = nat (snd shape))
         \<and> 0 < fst shape \<and> 0 < snd shape"
  using rasterize_polygons_Inr [OF ok] rasterize_dims by blast

lemmas sample_defs = feature_A_def feature_B_def feature_D_def feature_X_def feature_M_def
  feature_N_def feature_L_def feature_S_def feature_T_def grid_2x2_def
  rectangle_def rect_covers_def rect_intersects_def geom_bounds_def coords_def
  footprint_claims_def script_config_def

lemmas raster_defs = rasterize_polygons_def shapes_of_def rasterize_def burn_def
  saturate_uint8_def

lemma upt_0_2: "[0..<2] = [0, 1]"
  by (simp add: upt_rec numeral_2_eq_2)

subsection \<open>The union bounding box\<close>

lemma Min_of_Mins:
  fixes S :: "'i \<Rightarrow> real set"
  assumes "finite I" "I \<noteq> {}" "\<forall>i \<in> I. finite (S i) \<and> S i \<noteq> {}"
  shows "Min ((\<lambda>i. Min (S i)) ` I) = Min (\<Union>i \<in> I. S i)"
proof (rule sym, rule Min_eqI)
  show "finite (\<Union>i \<in> I. S i)" using assms by simp
next
  fix y assume "y \<in> (\<Union>i \<in> I. S i)"
  then obtain i where i: "i \<in> I" "y \<in> S i" by blast
  have "Min ((\<lambda>i. Min (S i)) ` I) \<le> Min (S i)" using assms(1) i(1) by simp
  also have "\<dots> \<le> y" using assms(3) i by simp
  finally show "Min ((\<lambda>i. Min (S i)) ` I) \<le> y" .
next
  have "Min ((\<lambda>i. Min (S i)) ` I) \<in> (\<lambda>i. Min (S i)) ` I"
    using assms(1,2) by (intro Min_in) simp_all
  then obtain i where i: "i \<in> I" "Min ((\<lambda>i. Min (S i)) ` I) = Min (S i)" by blast
  have "Min (S i) \<in> S i" using assms(3) i(1) by (intro Min_in) simp_all
  with i show "Min ((\<lambda>i. Min (S i)) ` I) \<in> (\<Union>i \<in> I. S i)" by auto
qed

lemma Max_of_Maxs:
  fixes S :: "'i \<Rightarrow> real set"
  assumes "finite I" "I \<noteq> {}" "\<forall>i \<in> I. finite (S i) \<and> S i \<noteq> {}"
  shows "Max ((\<lambda>i. Max (S i)) ` I) = Max (\<Union>i \<in> I. S i)"
proof (rule sym, rule Max_eqI)
  show "finite (\<Union>i \<in> I. S i)" using assms by simp
next
  fix y assume "y \<in> (\<Union>i \<in> I. S i)"
  then obtain i where i: "i \<in> I" "y \<in> S i" by blast
  have "y \<le> Max (S i)" using assms(3) i by simp
  also have "\<dots> \<le> Max ((\<lambda>i. Max (S i)) ` I)" using assms(1) i(1) by simp
  finally show "y \<le> Max ((\<lambda>i. Max (S i)) ` I)" .
next
  have "Max ((\<lambda>i. Max (S i)) ` I) \<in> (\<lambda>i. Max (S i)) ` I"
    using assms(1,2) by (intro Max_in) simp_all
  then obtain i where i: "i \<in> I" "Max ((\<lambda>i. Max (S i)) ` I) = Max (S i)" by blast
  have "Max (S i) \<in> S i" using assms(3) i(1) by (intro Max_in) simp_all
  with i show "Max ((\<lambda>i. Max (S i)) ` I) \<in> (\<Union>i \<in> I. S i)" by auto
qed

lemma finite_vertex_geoms: "finite (vertex_geoms gdf)"
proof -
  have "vertex_geoms gdf \<subseteq> (\<lambda>f. the (geometry f)) ` set gdf"
    by (force simp: vertex_geoms_def)
  then show ?thesis by (rule finite_subset) simp
qed

lemma set_map_filter: "set (List.map_filter h xs) = {y. \<exists>x \<in> set xs. h x = Some y}"
  by (induction xs) (auto simp: List.map_filter_simps split: option.splits)

lemma set_all_vertices: "set (all_vertices gdf) = (\<Union>g \<in> vertex_geoms gdf. set (coords g))"
proof (induction gdf)
  case Nil
  show ?case by (simp add: all_vertices_def vertex_geoms_def)
next
  case (Cons f fs)
  have step: "vertex_geoms (f # fs)
              = (case geometry f of None \<Rightarrow> {} | Some g \<Rightarrow> if coords g = [] then {} else {g})
                \<union> vertex_geoms fs"
    by (auto simp: vertex_geoms_def split: option.splits if_splits)
  have "set (all_vertices (f # fs))
        = (case geometry f of None \<Rightarrow> {} | Some g \<Rightarrow> set (coords g)) \<union> set (all_vertices fs)"
    by (simp add: all_vertices_def split: option.splits)
  also have "\<dots> = (\<Union>g \<in> vertex_geoms (f # fs). set (coords g))"
    unfolding step Cons.IH by (auto split: option.splits if_splits)
  finally show ?case .
qed

lemma vertex_geoms_empty: "vertex_geoms gdf = {} \<longleftrightarrow> all_vertices gdf = []"
proof -
  have "all_vertices gdf = [] \<longleftrightarrow> set (all_vertices gdf) = {}" by simp
  also have "\<dots> \<longleftrightarrow> vertex_geoms gdf = {}"
    unfolding set_all_vertices by (auto simp: vertex_geoms_def)
  finally show ?thesis by simp
qed

lemma geom_bounds_Some:
  "coords g \<noteq> [] \<Longrightarrow>
   geom_bounds (Some g) = Some (Min (fst ` set (coords g)), Min (snd ` set (coords g)),
                                Max (fst ` set (coords g)), Max (snd ` set (coords g)))"
  by (cases "coords g") (simp_all add: geom_bounds_def Min.set_eq_fold [symmetric] Max.set_eq_fold [symmetric])

lemma geom_bounds_None: "geom_bounds go = None \<longleftrightarrow> (case go of None \<Rightarrow> True | Some g \<Rightarrow> coords g = [])"
  by (auto simp: geom_bounds_def split: option.splits list.splits)

lemma set_row_bounds:
  "set (List.map_filter (\<lambda>f. geom_bounds (geometry f)) gdf)
   = (\<lambda>g. (Min (fst ` set (coords g)), Min (snd ` set (coords g)),
            Max (fst ` set (coords g)), Max (snd ` set (coords g)))) ` vertex_geoms gdf"
  (is "?L = ?R")
proof
  show "?L \<subseteq> ?R"
  proof
    fix b assume "b \<in> ?L"
    then obtain f where f: "f \<in> set gdf" "geom_bounds (geometry f) = Some b"
      by (auto simp: set_map_filter)
    then obtain g where g: "geometry f = Some g" "coords g \<noteq> []"
      using geom_bounds_None [of "geometry f"] by (cases "geometry f") auto
    with f have "g \<in> vertex_geoms gdf" by (auto simp: vertex_geoms_def)
    moreover from f g have "b = (Min (fst ` set (coords g)), Min (snd ` set (coords g)),
            Max (fst ` set (coords g)), Max (snd ` set (coords g)))"
      by (simp add: geom_bounds_Some)
    ultimately show "b \<in> ?R" by blast
  qed
next
  show "?R \<subseteq> ?L"
  proof
    fix b assume "b \<in> ?R"
    then obtain g where g: "g \<in> vertex_geoms gdf"
      "b = (Min (fst ` set (coords g)), Min (snd ` set (coords g)),
            Max (fst ` set (coords g)), Max (snd ` set (coords g)))" by blast
    then obtain f where f: "f \<in> set gdf" "geometry f = Some g" "coords g \<noteq> []"
      by (auto simp: vertex_geoms_def)
    then have "geom_bounds (geometry f) = Some b" using g(2) by (simp add: geom_bounds_Some)
    with f(1) show "b \<in> ?L" by (auto simp: set_map_filter)
  qed
qed

lemma total_bounds_union_bbox:
  "total_bounds gdf = (if all_vertices gdf = [] then None else Some (union_bbox gdf))"
proof (cases "all_vertices gdf = []")
  case True
  then have "vertex_geoms gdf = {}" by (simp add: vertex_geoms_empty)
  then have "set (List.map_filter (\<lambda>f. geom_bounds (geometry f)) gdf) = {}"
    by (simp add: set_row_bounds)
  then show ?thesis using True by (simp add: total_bounds_def)
next
  case False
  let ?I = "vertex_geoms gdf"
  let ?bs = "List.map_filter (\<lambda>f. geom_bounds (geometry f)) gdf"
  have I: "finite ?I" "?I \<noteq> {}" using False by (simp_all add: finite_vertex_geoms vertex_geoms_empty)
  have S1: "\<forall>g \<in> ?I. finite (fst ` set (coords g)) \<and> fst ` set (coords g) \<noteq> {}"
    and S2: "\<forall>g \<in> ?I. finite (snd ` set (coords g)) \<and> snd ` set (coords g) \<noteq> {}"
    by (auto simp: vertex_geoms_def)
  have bs: "?bs \<noteq> []" using I(2) set_row_bounds [of gdf] by auto
  have tb: "total_bounds gdf = Some (Min (set (map (\<lambda>(a, b, c, d). a) ?bs)),
                                    Min (set (map (\<lambda>(a, b, c, d). b) ?bs)),
                                    Max (set (map (\<lambda>(a, b, c, d). c) ?bs)),
                                    Max (set (map (\<lambda>(a, b, c, d). d) ?bs)))"
    using bs by (cases ?bs) (auto simp: total_bounds_def Min.set_eq_fold [symmetric] Max.set_eq_fold [symmetric])
  have x0: "Min (set (map (\<lambda>(a, b, c, d). a) ?bs)) = Min (set (map fst (all_vertices gdf)))"
  proof -
    have "set (map (\<lambda>(a, b, c, d). a) ?bs) = (\<lambda>g. Min (fst ` set (coords g))) ` ?I"
      by (simp add: set_row_bounds image_image)
    moreover have "set (map fst (all_vertices gdf)) = (\<Union>g \<in> ?I. fst ` set (coords g))"
      by (simp add: set_all_vertices image_UN)
    ultimately show ?thesis using Min_of_Mins [OF I S1] by simp
  qed
  have y0: "Min (set (map (\<lambda>(a, b, c, d). b) ?bs)) = Min (set (map snd (all_vertices gdf)))"
  proof -
    have "set (map (\<lambda>(a, b, c, d). b) ?bs) = (\<lambda>g. Min (snd ` set (coords g))) ` ?I"
      by (simp add: set_row_bounds image_image)
    moreover have "set (map snd (all_vertices gdf)) = (\<Union>g \<in> ?I. snd ` set (coords g))"
      by (simp add: set_all_vertices image_UN)
    ultimately show ?thesis using Min_of_Mins [OF I S2] by simp
  qed
  have x1: "Max (set (map (\<lambda>(a, b, c, d). c) ?bs)) = Max (set (map fst (all_vertices gdf)))"
  proof -
    have "set (map (\<lambda>(a, b, c, d). c) ?bs) = (\<lambda>g. Max (fst ` set (coords g))) ` ?I"
      by (simp add: set_row_bounds image_image)
    moreover have "set (map fst (all_vertices gdf)) = (\<Union>g \<in> ?I. fst ` set (coords g))"
      by (simp add: set_all_vertices image_UN)
    ultimately show ?thesis using Max_of_Maxs [OF I S1] by simp
  qed
  have y1: "Max (set (map (\<lambda>(a, b, c, d). d) ?bs)) = Max (set (map snd (all_vertices gdf)))"
  proof -
    have "set (map (\<lambda>(a, b, c, d). d) ?bs) = (\<lambda>g. Max (snd ` set (coords g))) ` ?I"
      by (simp add: set_row_bounds image_image)
    moreover have "set (map snd (all_vertices gdf)) = (\<Union>g \<in> ?I. snd ` set (coords g))"
      by (simp add: set_all_vertices image_UN)
    ultimately show ?thesis using Max_of_Maxs [OF I S2] by simp
  qed
  show ?thesis using False unfolding tb x0 y0 x1 y1 by (simp add: union_bbox_def Let_def)
qed

lemma union_bbox_ordered:
  assumes "all_vertices gdf \<noteq> []" and "union_bbox gdf = (minx, miny, maxx, maxy)"
  shows "minx \<le> maxx \<and> miny \<le> maxy"
proof -
  let ?X = "set (map fst (all_vertices gdf))" and ?Y = "set (map snd (all_vertices gdf))"
  have ne: "?X \<noteq> {}" "?Y \<noteq> {}" using assms(1) by simp_all
  have "Min ?X \<le> Max ?X" using ne(1) by (intro Min_le_iff [THEN iffD2]) (auto intro: Max_in)
  moreover have "Min ?Y \<le> Max ?Y" using ne(2) by (intro Min_le_iff [THEN iffD2]) (auto intro: Max_in)
  ultimately show ?thesis using assms(2) by (simp add: union_bbox_def Let_def)
qed

subsection \<open>The grid computation\<close>

lemmas calc_defs = calculate_raster_params_def total_bounds_def List.map_filter_def from_bounds_def
  int_ceil_div_def scale_factor_def np_divide_def np_subtract_def zero_times_def
  round_double_zero double_ints double_halves


lemma ceiling_exact_quotient: "\<lceil>3 / double_0_3\<rceil> = 11"
  by (simp add: double_0_3_def ceiling_eq_iff)

lemma np_subtract_nonneg:
  assumes "a \<le> b" and "np_subtract b a = Some w"
  shows "0 \<le> w"
  using round_double_sign [of "b - a" w] assms by (simp add: np_subtract_def)

lemma np_divide_sign:
  assumes "np_divide x r = Some q" and "0 \<le> x"
  shows "(0 < r \<longrightarrow> 0 \<le> q) \<and> (r < 0 \<longrightarrow> q \<le> 0)"
proof -
  from assms(1) have r: "r \<noteq> 0" and q: "round_double (x / r) = Some q"
    by (simp_all add: np_divide_def split: if_splits)
  have "0 < r \<longrightarrow> 0 \<le> x / r" "r < 0 \<longrightarrow> x / r \<le> 0"
    using assms(2) by (simp_all add: divide_nonneg_neg)
  with round_double_sign [OF q] show ?thesis by blast
qed

lemma int_ceil_div_nonzero:
  assumes "r \<noteq> 0"
  shows "int_ceil_div extent r =
           (case extent of
              None \<Rightarrow> Inl (OverflowError ''cannot convert float infinity to integer'')
            | Some x \<Rightarrow>
                (case np_divide x r of
                   None \<Rightarrow> Inl (OverflowError ''cannot convert float infinity to integer'')
                 | Some q \<Rightarrow> Inr \<lceil>q\<rceil>))"
  using assms by (cases extent) (simp_all add: int_ceil_div_def)

lemma int_ceil_div_zero:
  "int_ceil_div extent 0 = Inl (ValueError ''cannot convert float NaN to integer'')
   \<or> int_ceil_div extent 0 = Inl (OverflowError ''cannot convert float infinity to integer'')"
  by (cases extent) (simp_all add: int_ceil_div_def)

lemma int_ceil_div_Inr:
  assumes "int_ceil_div extent r = Inr n"
  shows "r \<noteq> 0 \<and> (\<exists>x q. extent = Some x \<and> np_divide x r = Some q \<and> n = \<lceil>q\<rceil>)"
proof -
  have r: "r \<noteq> 0"
  proof
    assume "r = 0"
    with assms int_ceil_div_zero [of extent] show False by auto
  qed
  with assms show ?thesis
    by (simp add: int_ceil_div_nonzero split: option.splits)
qed

lemma int_ceil_div_Inl:
  assumes "int_ceil_div extent r = Inl e" and "r \<noteq> 0"
  shows "e = OverflowError ''cannot convert float infinity to integer''
         \<and> (extent = None \<or> (\<exists>x. extent = Some x \<and> np_divide x r = None))"
  using assms by (simp add: int_ceil_div_nonzero split: option.splits)

lemma int_ceil_div_sign:
  assumes "int_ceil_div (np_subtract b a) r = Inr n" and "a \<le> b"
  shows "(0 < r \<longrightarrow> 0 \<le> n) \<and> (r < 0 \<longrightarrow> n \<le> 0)"
proof -
  from int_ceil_div_Inr [OF assms(1)] obtain x q where
    x: "np_subtract b a = Some x" and q: "np_divide x r = Some q" and n: "n = \<lceil>q\<rceil>" by blast
  have "0 \<le> x" using assms(2) x by (rule np_subtract_nonneg)
  with np_divide_sign [OF q] have "(0 < r \<longrightarrow> 0 \<le> q) \<and> (r < 0 \<longrightarrow> q \<le> 0)" by simp
  moreover have "0 \<le> \<lceil>q\<rceil>" if "0 \<le> q" using ceiling_mono [OF that] by simp
  moreover have "\<lceil>q\<rceil> \<le> 0" if "q \<le> 0" using ceiling_mono [OF that] by simp
  ultimately show ?thesis unfolding n by blast
qed

lemma int_ceil_div_degenerate:
  assumes "r \<noteq> 0"
  shows "int_ceil_div (np_subtract a a) r = Inr 0"
  using assms by (simp add: int_ceil_div_nonzero np_subtract_self np_divide_zero)

lemma calculate_raster_params_vertices:
  assumes "all_vertices gdf \<noteq> []" and "union_bbox gdf = (minX, minY, maxX, maxY)"
  shows "calculate_raster_params gdf r =
           (case int_ceil_div (np_subtract maxX minX) r of
              Inl e \<Rightarrow> Inl e
            | Inr cols \<Rightarrow>
                (case int_ceil_div (np_subtract maxY minY) r of
                   Inl e \<Rightarrow> Inl e
                 | Inr rows \<Rightarrow>
                     Inr ((minX, minY, maxX, maxY), (rows, cols),
                          from_bounds minX minY maxX maxY cols rows)))"
  using assms
  by (simp add: calculate_raster_params_def total_bounds_union_bbox Let_def split: sum.splits)





subsection \<open>The pipeline\<close>

lemmas filter_defs = filter_null_geometries_def crop_to_bbox_def filter_by_dn_threshold_def

lemma main_unfold:
  "main ix cv wr cfg loaded =
     (if crop_to_bbox ix (filter_null_geometries loaded) (CROP_BBOX cfg) = [] then
        Inl NoFeaturesAfterCropping
      else if filter_by_dn_threshold
                (crop_to_bbox ix (filter_null_geometries loaded) (CROP_BBOX cfg))
                (DN_THRESHOLD cfg) = [] then
        Inl (NoFeaturesAfterDNFilter (DN_THRESHOLD cfg))
      else
        (case calculate_raster_params
                (filter_by_dn_threshold
                   (crop_to_bbox ix (filter_null_geometries loaded) (CROP_BBOX cfg))
                   (DN_THRESHOLD cfg)) (PIXEL_RESOLUTION cfg) of
           Inl e \<Rightarrow> Inl e
         | Inr (bounds, shape, transform) \<Rightarrow>
             (case rasterize_polygons cv
                     (filter_by_dn_threshold
                        (crop_to_bbox ix (filter_null_geometries loaded) (CROP_BBOX cfg))
                        (DN_THRESHOLD cfg)) transform shape (OUTPUT_VALUE_TYPE cfg) of
                Inl e \<Rightarrow> Inl e
              | Inr raster_array \<Rightarrow>
                  write_geotiff wr raster_array transform (CRS cfg) (NODATA_VALUE cfg)
                    (COMPRESSION cfg))))"
  by (simp add: main_def Let_def)

lemma write_geotiff_Inr:
  assumes "write_geotiff wr a tr crs n cmp = Inr (prof, arr)"
  shows "arr = a \<and> prof = geotiff_profile a tr crs n cmp \<and> wr prof a = None"
  using assms by (auto simp: write_geotiff_def Let_def split: option.splits)

lemma main_Inr:
  assumes "main ix cv wr cfg loaded = Inr (prof, arr)"
  shows "\<exists>bounds shape tr.
           filter_by_dn_threshold (crop_to_bbox ix (filter_null_geometries loaded) (CROP_BBOX cfg))
             (DN_THRESHOLD cfg) \<noteq> []
         \<and> calculate_raster_params
             (filter_by_dn_threshold (crop_to_bbox ix (filter_null_geometries loaded) (CROP_BBOX cfg))
               (DN_THRESHOLD cfg)) (PIXEL_RESOLUTION cfg) = Inr (bounds, shape, tr)
         \<and> rasterize_polygons cv
             (filter_by_dn_threshold (crop_to_bbox ix (filter_null_geometries loaded) (CROP_BBOX cfg))
               (DN_THRESHOLD cfg)) tr shape (OUTPUT_VALUE_TYPE cfg) = Inr arr
         \<and> prof = geotiff_profile arr tr (CRS cfg) (NODATA_VALUE cfg) (COMPRESSION cfg)
         \<and> wr prof arr = None"
proof -
  let ?cropped = "crop_to_bbox ix (filter_null_geometries loaded) (CROP_BBOX cfg)"
  let ?gdf = "filter_by_dn_threshold ?cropped (DN_THRESHOLD cfg)"
  from assms have c: "?cropped \<noteq> []"
    unfolding main_unfold by (simp split: if_splits)
  from assms c have ne: "?gdf \<noteq> []"
    unfolding main_unfold by (simp split: if_splits)
  from assms c ne obtain bounds shape tr where
    calc: "calculate_raster_params ?gdf (PIXEL_RESOLUTION cfg) = Inr (bounds, shape, tr)"
    unfolding main_unfold
    by (cases "calculate_raster_params ?gdf (PIXEL_RESOLUTION cfg)") auto
  from assms c ne calc obtain a where
    rast: "rasterize_polygons cv ?gdf tr shape (OUTPUT_VALUE_TYPE cfg) = Inr a"
    unfolding main_unfold
    by (cases "rasterize_polygons cv ?gdf tr shape (OUTPUT_VALUE_TYPE cfg)") auto
  from assms c ne calc rast
  have "write_geotiff wr a tr (CRS cfg) (NODATA_VALUE cfg) (COMPRESSION cfg) = Inr (prof, arr)"
    unfolding main_unfold by simp
  from write_geotiff_Inr [OF this] ne calc rast show ?thesis by blast
qed

lemma cropped_subset:
  "set (crop_to_bbox ix (filter_null_geometries loaded) bb) \<subseteq> set loaded"
  by (cases bb) (auto simp: crop_to_bbox_def filter_null_geometries_def)

lemma survivors_subset:
  "set (filter_by_dn_threshold (crop_to_bbox ix (filter_null_geometries loaded) bb) t) \<subseteq> set loaded"
  using cropped_subset [of ix loaded bb] by (auto simp: filter_by_dn_threshold_def)




section \<open>The threshold filter\<close>

text \<open>
  C6. For every collection and threshold \<open>t\<close>, the threshold filter keeps a feature if and
  only if its DN is at least \<open>t\<close>: every kept feature has DN at least \<open>t\<close>, every excluded
  feature has DN below \<open>t\<close>, and the kept and removed counts add up to the input count
  (the removed count being the number of features below the threshold).
\<close>

theorem filter_by_dn_threshold_correct:
  "(\<forall>f \<in> set gdf. f \<in> set (filter_by_dn_threshold gdf t) \<longleftrightarrow> DN f \<ge> t)
   \<and> (\<forall>f \<in> set (filter_by_dn_threshold gdf t). f \<in> set gdf \<and> DN f \<ge> t)
   \<and> (\<forall>f \<in> set gdf. f \<notin> set (filter_by_dn_threshold gdf t) \<longrightarrow> DN f < t)
   \<and> length (filter_by_dn_threshold gdf t) + removed_count gdf t = length gdf
   \<and> removed_count gdf t = length (filter (\<lambda>f. DN f < t) gdf)"
proof -
  have compl: "length (filter (\<lambda>f. t \<le> DN f) gdf) + length (filter (\<lambda>f. \<not> t \<le> DN f) gdf)
               = length gdf"
    by (rule sum_length_filter_compl)
  have same: "(\<lambda>f. \<not> t \<le> DN f) = (\<lambda>f. DN f < t)" by auto
  have le: "length (filter (\<lambda>f. t \<le> DN f) gdf) \<le> length gdf" by simp
  have members: "(\<forall>f \<in> set gdf. f \<in> set (filter_by_dn_threshold gdf t) \<longleftrightarrow> DN f \<ge> t)
   \<and> (\<forall>f \<in> set (filter_by_dn_threshold gdf t). f \<in> set gdf \<and> DN f \<ge> t)
   \<and> (\<forall>f \<in> set gdf. f \<notin> set (filter_by_dn_threshold gdf t) \<longrightarrow> DN f < t)"
    by (auto simp: filter_by_dn_threshold_def)
  have counts: "length (filter_by_dn_threshold gdf t) + removed_count gdf t = length gdf"
    using le by (simp add: filter_by_dn_threshold_def removed_count_def Let_def)
  have "length (filter (\<lambda>f. t \<le> DN f) gdf) + length (filter (\<lambda>f. DN f < t) gdf) = length gdf"
    using compl unfolding same .
  then have "length gdf - length (filter (\<lambda>f. t \<le> DN f) gdf)
             = length (filter (\<lambda>f. DN f < t) gdf)"
    by arith
  then have removed: "removed_count gdf t = length (filter (\<lambda>f. DN f < t) gdf)"
    by (simp add: filter_by_dn_threshold_def removed_count_def Let_def)
  from members counts removed show ?thesis by blast
qed

theorem filter_by_dn_threshold_correct_witness:
  "filter_by_dn_threshold
     [\<lparr>geometry = None, DN = 252\<rparr>, \<lparr>geometry = None, DN = 253\<rparr>, \<lparr>geometry = None, DN = 255\<rparr>] 253
     = [\<lparr>geometry = None, DN = 253\<rparr>, \<lparr>geometry = None, DN = 255\<rparr>]
   \<and> \<lparr>geometry = None, DN = 252\<rparr>
       \<in> set [\<lparr>geometry = None, DN = 252\<rparr>, \<lparr>geometry = None, DN = 253\<rparr>, \<lparr>geometry = None, DN = 255\<rparr>]
   \<and> \<lparr>geometry = None, DN = 252\<rparr>
       \<notin> set (filter_by_dn_threshold
           [\<lparr>geometry = None, DN = 252\<rparr>, \<lparr>geometry = None, DN = 253\<rparr>, \<lparr>geometry = None, DN = 255\<rparr>] 253)
   \<and> DN \<lparr>geometry = None, DN = 252\<rparr> < 253
   \<and> removed_count
       [\<lparr>geometry = None, DN = 252\<rparr>, \<lparr>geometry = None, DN = 253\<rparr>, \<lparr>geometry = None, DN = 255\<rparr>] 253 = 1"
  using filter_by_dn_threshold_correct
    [of "[\<lparr>geometry = None, DN = 252\<rparr>, \<lparr>geometry = None, DN = 253\<rparr>, \<lparr>geometry = None, DN = 255\<rparr>]" 253]
  by (simp add: filter_by_dn_threshold_def removed_count_def)

section \<open>The categorical encoding\<close>

text \<open>
  C9. Under the categorical policy the encoding is a fixed total mapping: DN 253 gives 1,
  254 gives 2, 255 gives 3 and every other DN gives 0. The pairs prepared for the
  rasterizer carry exactly these values, whatever the rest of the configuration is.
\<close>

theorem categorical_encoding_fixed:
  "dn_to_category 253 = 1 \<and> dn_to_category 254 = 2 \<and> dn_to_category 255 = 3
   \<and> (\<forall>dn. dn \<noteq> 253 \<and> dn \<noteq> 254 \<and> dn \<noteq> 255 \<longrightarrow> dn_to_category dn = 0)
   \<and> shapes_of ''categorical'' gdf = Inr (map (\<lambda>f. (geometry f, dn_to_category (DN f))) gdf)"
  by (simp add: dn_to_category_def shapes_of_def)

theorem categorical_encoding_fixed_witness:
  "dn_to_category 253 = 1 \<and> dn_to_category 254 = 2 \<and> dn_to_category 255 = 3
   \<and> ((0::int) \<noteq> 253 \<and> (0::int) \<noteq> 254 \<and> (0::int) \<noteq> 255) \<and> dn_to_category 0 = 0
   \<and> dn_to_category 300 = 0
   \<and> shapes_of ''categorical'' [\<lparr>geometry = None, DN = 254\<rparr>] = Inr [(None, 2)]"
  using categorical_encoding_fixed [of "[\<lparr>geometry = None, DN = 254\<rparr>]"]
  by (simp add: dn_to_category_def)

section \<open>Overlap resolution\<close>

text \<open>
  C1, as stated, does not hold for every collection: under \<^verbatim>\<open>original_dn\<close> a later feature
  with DN 300 overwrites the pixel it shares with an earlier feature, but the pixel then
  holds 255, not the feature's encoded value 300.
\<close>

theorem later_feature_out_of_range_counterexample:
  "footprint_claims rect_covers grid_2x2 feature_A (1, 0)
   \<and> footprint_claims rect_covers grid_2x2 feature_X (1, 0)
   \<and> DN feature_X = 300
   \<and> rasterize_polygons rect_covers [feature_A, feature_X] grid_2x2 (2, 2) ''original_dn''
       = Inr [[253, 253], [255, 253]]
   \<and> uint ([[253, 253], [255, 253 :: 8 word]] ! 1 ! 0) = 255"
  by (simp add: raster_defs upt_0_2 sample_defs)

text \<open>
  C1, amended. When the footprints of two features \<open>A\<close> and \<open>B\<close>, \<open>A\<close> before \<open>B\<close> in the
  collection, claim the same pixel of the grid, and no feature after \<open>B\<close> claims it, the
  rasterization returns an array whose pixel holds the encoded value of \<open>B\<close> saturated to
  0..255: 1 under \<^verbatim>\<open>binary\<close>, the category of \<open>B\<close> under \<^verbatim>\<open>categorical\<close>, and under
  \<^verbatim>\<open>original_dn\<close> the DN of \<open>B\<close> when it lies within 0..255, else 255 or 0. For \<open>A\<close> with
  DN 253 and \<open>B\<close> with DN 255 these are 1, 255 and 3.
\<close>

theorem later_feature_wins:
  assumes order: "gdf = xs @ A # ys @ B # zs"
    and A: "footprint_claims covers tr A (r, c)"
    and B: "footprint_claims covers tr B (r, c)"
    and last: "\<forall>f \<in> set zs. \<not> footprint_claims covers tr f (r, c)"
    and inside: "int r < fst shape" "int c < snd shape"
    and policy: "vt = ''binary'' \<or> vt = ''original_dn'' \<or> vt = ''categorical''"
  shows "\<exists>arr. rasterize_polygons covers gdf tr shape vt = Inr arr
         \<and> uint (arr ! r ! c) =
             (if vt = ''binary'' then 1
              else if vt = ''original_dn'' then max 0 (min 255 (DN B))
              else dn_to_category (DN B))
         \<and> (0 \<le> DN B \<and> DN B \<le> 255 \<longrightarrow>
              uint (arr ! r ! c) =
                (if vt = ''binary'' then 1
                 else if vt = ''original_dn'' then DN B
                 else dn_to_category (DN B)))
         \<and> (DN A = 253 \<and> DN B = 255 \<longrightarrow>
              uint (arr ! r ! c) =
                (if vt = ''binary'' then 1 else if vt = ''original_dn'' then 255 else 3))"
proof -
  have order': "gdf = (xs @ A # ys) @ B # zs" using order by simp
  have pos: "0 < fst shape" "0 < snd shape" using inside by simp_all
  have cat: "0 \<le> dn_to_category d \<and> dn_to_category d \<le> 255" for d
    by (simp add: dn_to_category_def)
  have general: "\<exists>arr. rasterize cv' (map (\<lambda>f. (geometry f, enc f)) gdf) shape tr 0 = Inr arr
                  \<and> arr ! r ! c = saturate_uint8 (enc B)"
    if "cv' = covers" for enc :: "feature \<Rightarrow> int" and cv'
  proof -
    from rasterize_positive [OF pos, of covers "map (\<lambda>f. (geometry f, enc f)) gdf" tr 0]
    obtain arr where arr: "rasterize covers (map (\<lambda>f. (geometry f, enc f)) gdf) shape tr 0 = Inr arr"
      by blast
    from rasterize_last_claim [OF arr order' B last inside] arr that show ?thesis by blast
  qed
  from policy show ?thesis
  proof (elim disjE)
    assume vt: "vt = ''binary''"
    from general [of covers "\<lambda>f. 1"] obtain arr where
      "rasterize covers (map (\<lambda>f. (geometry f, 1)) gdf) shape tr 0 = Inr arr"
      "arr ! r ! c = saturate_uint8 1" by blast
    then have "rasterize_polygons covers gdf tr shape vt = Inr arr" "uint (arr ! r ! c) = 1"
      unfolding vt by (simp_all add: rasterize_polygons_binary uint_saturate_uint8)
    with vt show ?thesis by auto
  next
    assume vt: "vt = ''original_dn''"
    from general [of covers DN] obtain arr where
      "rasterize covers (map (\<lambda>f. (geometry f, DN f)) gdf) shape tr 0 = Inr arr"
      "arr ! r ! c = saturate_uint8 (DN B)" by blast
    then have "rasterize_polygons covers gdf tr shape vt = Inr arr"
      "uint (arr ! r ! c) = max 0 (min 255 (DN B))"
      unfolding vt by (simp_all add: rasterize_polygons_original_dn uint_saturate_uint8)
    with vt show ?thesis by auto
  next
    assume vt: "vt = ''categorical''"
    from general [of covers "\<lambda>f. dn_to_category (DN f)"] obtain arr where
      "rasterize covers (map (\<lambda>f. (geometry f, dn_to_category (DN f))) gdf) shape tr 0 = Inr arr"
      "arr ! r ! c = saturate_uint8 (dn_to_category (DN B))" by blast
    then have "rasterize_polygons covers gdf tr shape vt = Inr arr"
      "uint (arr ! r ! c) = dn_to_category (DN B)"
      unfolding vt using cat [of "DN B"]
      by (simp_all add: rasterize_polygons_categorical uint_saturate_uint8)
    moreover have "DN B = 255 \<longrightarrow> dn_to_category (DN B) = 3" by (simp add: dn_to_category_def)
    ultimately show ?thesis using vt by auto
  qed
qed

theorem later_feature_wins_witness:
  "rasterize_polygons rect_covers [feature_A, feature_B] grid_2x2 (2, 2) ''binary''
     = Inr [[1, 1], [1, 1]]
   \<and> rasterize_polygons rect_covers [feature_A, feature_B] grid_2x2 (2, 2) ''original_dn''
     = Inr [[253, 253], [253, 255]]
   \<and> rasterize_polygons rect_covers [feature_A, feature_B] grid_2x2 (2, 2) ''categorical''
     = Inr [[1, 1], [1, 3]]
   \<and> footprint_claims rect_covers grid_2x2 feature_A (1, 1)
   \<and> footprint_claims rect_covers grid_2x2 feature_B (1, 1)
   \<and> DN feature_A = 253 \<and> DN feature_B = 255
   \<and> uint ([[1, 1], [1, 1 :: 8 word]] ! 1 ! 1) = 1
   \<and> uint ([[253, 253], [253, 255 :: 8 word]] ! 1 ! 1) = 255
   \<and> uint ([[1, 1], [1, 3 :: 8 word]] ! 1 ! 1) = 3"
proof -
  have bin: "rasterize_polygons rect_covers [feature_A, feature_B] grid_2x2 (2, 2) ''binary''
     = Inr [[1, 1], [1, 1]]"
    by (simp add: raster_defs upt_0_2 sample_defs)
  have dn: "rasterize_polygons rect_covers [feature_A, feature_B] grid_2x2 (2, 2) ''original_dn''
     = Inr [[253, 253], [253, 255]]"
    by (simp add: raster_defs upt_0_2 sample_defs)
  have cat: "rasterize_polygons rect_covers [feature_A, feature_B] grid_2x2 (2, 2) ''categorical''
     = Inr [[1, 1], [1, 3]]"
    by (simp add: raster_defs dn_to_category_def upt_0_2 sample_defs)
  have order: "[feature_A, feature_B] = [] @ feature_A # [] @ feature_B # []" by simp
  have A: "footprint_claims rect_covers grid_2x2 feature_A (1, 1)"
    and B: "footprint_claims rect_covers grid_2x2 feature_B (1, 1)"
    by (simp_all add: sample_defs)
  have last: "\<forall>f \<in> set []. \<not> footprint_claims rect_covers grid_2x2 f (1, 1)" by simp
  have inside: "int 1 < fst (2 :: int, 2 :: int)" "int 1 < snd (2 :: int, 2 :: int)" by simp_all
  have dns: "DN feature_A = 253 \<and> DN feature_B = 255" by (simp add: sample_defs)
  from later_feature_wins [OF order A B last inside, of "''binary''"] bin dns
  have 1: "uint ([[1, 1], [1, 1 :: 8 word]] ! 1 ! 1) = 1" by auto
  from later_feature_wins [OF order A B last inside, of "''original_dn''"] dn dns
  have 2: "uint ([[253, 253], [253, 255 :: 8 word]] ! 1 ! 1) = 255" by auto
  from later_feature_wins [OF order A B last inside, of "''categorical''"] cat dns
  have 3: "uint ([[1, 1], [1, 3 :: 8 word]] ! 1 ! 1) = 3" by auto
  from bin dn cat A B dns 1 2 3 show ?thesis by blast
qed

section \<open>The original-DN encoding\<close>

text \<open>
  C2, as stated, does not hold: no DN is rejected. A collection holding a feature with
  DN 300, or one with DN -1, is rasterized without error, and the pixels of the feature
  hold 255, or 0.
\<close>

theorem original_dn_out_of_range_counterexample:
  "DN feature_X = 300
   \<and> rasterize_polygons rect_covers [feature_X] grid_2x2 (2, 2) ''original_dn''
       = Inr [[0, 0], [255, 0]]
   \<and> DN feature_M = - 1
   \<and> rasterize_polygons rect_covers [feature_D, feature_M] grid_2x2 (2, 2) ''original_dn''
       = Inr [[253, 0], [0, 0]]"
  by (simp add: raster_defs upt_0_2 sample_defs)

text \<open>
  C2, amended. Under \<^verbatim>\<open>original_dn\<close> each feature is paired with its DN verbatim, and the
  rasterization call returns an array for every grid of positive dimensions, whatever the
  DNs are: there is no InvalidValue. Where a feature is the last to claim a pixel, the pixel
  is its DN when the DN lies within 0..255, 255 when the DN is larger and 0 when it is
  negative.
\<close>

theorem original_dn_verbatim_or_saturated:
  "shapes_of ''original_dn'' gdf = Inr (map (\<lambda>f. (geometry f, DN f)) gdf)
   \<and> (0 < fst shape \<and> 0 < snd shape \<longrightarrow>
        (\<exists>arr. rasterize_polygons covers gdf tr shape ''original_dn'' = Inr arr))
   \<and> (rasterize_polygons covers gdf tr shape ''original_dn'' = Inr arr
        \<and> gdf = pre @ B # post \<and> footprint_claims covers tr B (r, c)
        \<and> (\<forall>f \<in> set post. \<not> footprint_claims covers tr f (r, c))
        \<and> int r < fst shape \<and> int c < snd shape
        \<longrightarrow> (0 \<le> DN B \<and> DN B \<le> 255 \<longrightarrow> uint (arr ! r ! c) = DN B)
            \<and> (255 < DN B \<longrightarrow> uint (arr ! r ! c) = 255)
            \<and> (DN B < 0 \<longrightarrow> uint (arr ! r ! c) = 0))"
proof -
  have verbatim: "shapes_of ''original_dn'' gdf = Inr (map (\<lambda>f. (geometry f, DN f)) gdf)"
    by (simp add: shapes_of_def)
  have returns: "\<exists>arr. rasterize_polygons covers gdf tr shape ''original_dn'' = Inr arr"
    if "0 < fst shape \<and> 0 < snd shape"
    unfolding rasterize_polygons_original_dn using that by (simp add: rasterize_positive)
  have burned: "(0 \<le> DN B \<and> DN B \<le> 255 \<longrightarrow> uint (arr ! r ! c) = DN B)
            \<and> (255 < DN B \<longrightarrow> uint (arr ! r ! c) = 255)
            \<and> (DN B < 0 \<longrightarrow> uint (arr ! r ! c) = 0)"
    if a: "rasterize_polygons covers gdf tr shape ''original_dn'' = Inr arr
        \<and> gdf = pre @ B # post \<and> footprint_claims covers tr B (r, c)
        \<and> (\<forall>f \<in> set post. \<not> footprint_claims covers tr f (r, c))
        \<and> int r < fst shape \<and> int c < snd shape"
  proof -
    from a have "rasterize_polygons covers gdf tr shape ''original_dn'' = Inr arr"
      by (rule conjunct1)
    then have ok: "rasterize covers (map (\<lambda>f. (geometry f, DN f)) gdf) shape tr 0 = Inr arr"
      unfolding rasterize_polygons_original_dn .
    from a have rest: "gdf = pre @ B # post" "footprint_claims covers tr B (r, c)"
      "\<forall>f \<in> set post. \<not> footprint_claims covers tr f (r, c)"
      "int r < fst shape" "int c < snd shape" by simp_all
    from rasterize_last_claim [OF ok rest]
    have "uint (arr ! r ! c) = max 0 (min 255 (DN B))" by (simp add: uint_saturate_uint8)
    then show ?thesis by simp
  qed
  from verbatim returns burned show ?thesis by blast
qed

theorem original_dn_verbatim_or_saturated_witness:
  "0 < fst (2 :: int, 2 :: int) \<and> 0 < snd (2 :: int, 2 :: int)
   \<and> rasterize_polygons rect_covers [feature_B, feature_X] grid_2x2 (2, 2) ''original_dn''
       = Inr [[0, 0], [255, 255]]
   \<and> footprint_claims rect_covers grid_2x2 feature_B (1, 1)
   \<and> \<not> footprint_claims rect_covers grid_2x2 feature_X (1, 1)
   \<and> 0 \<le> DN feature_B \<and> DN feature_B \<le> 255
   \<and> uint ([[0, 0], [255, 255 :: 8 word]] ! 1 ! 1) = DN feature_B
   \<and> footprint_claims rect_covers grid_2x2 feature_X (1, 0)
   \<and> 255 < DN feature_X
   \<and> uint ([[0, 0], [255, 255 :: 8 word]] ! 1 ! 0) = 255
   \<and> rasterize_polygons rect_covers [feature_M] grid_2x2 (2, 2) ''original_dn''
       = Inr [[0, 0], [0, 0]]
   \<and> footprint_claims rect_covers grid_2x2 feature_M (1, 1)
   \<and> DN feature_M < 0
   \<and> uint ([[0, 0], [0, 0 :: 8 word]] ! 1 ! 1) = 0"
proof -
  have pos: "0 < fst (2 :: int, 2 :: int) \<and> 0 < snd (2 :: int, 2 :: int)" by simp
  have bx: "rasterize_polygons rect_covers [feature_B, feature_X] grid_2x2 (2, 2) ''original_dn''
       = Inr [[0, 0], [255, 255]]"
    by (simp add: raster_defs upt_0_2 sample_defs)
  have m: "rasterize_polygons rect_covers [feature_M] grid_2x2 (2, 2) ''original_dn''
       = Inr [[0, 0], [0, 0]]"
    by (simp add: raster_defs upt_0_2 sample_defs)
  have claims: "footprint_claims rect_covers grid_2x2 feature_B (1, 1)"
    "\<not> footprint_claims rect_covers grid_2x2 feature_X (1, 1)"
    "footprint_claims rect_covers grid_2x2 feature_X (1, 0)"
    "footprint_claims rect_covers grid_2x2 feature_M (1, 1)"
    by (simp_all add: sample_defs)
  have dns: "0 \<le> DN feature_B \<and> DN feature_B \<le> 255" "255 < DN feature_X" "DN feature_M < 0"
    by (simp_all add: sample_defs)
  have hB: "rasterize_polygons rect_covers [feature_B, feature_X] grid_2x2 (2, 2) ''original_dn''
              = Inr [[0, 0], [255, 255]]
     \<and> [feature_B, feature_X] = [] @ feature_B # [feature_X]
     \<and> footprint_claims rect_covers grid_2x2 feature_B (1, 1)
     \<and> (\<forall>f \<in> set [feature_X]. \<not> footprint_claims rect_covers grid_2x2 f (1, 1))
     \<and> int 1 < fst (2 :: int, 2 :: int) \<and> int 1 < snd (2 :: int, 2 :: int)"
    using bx claims by simp
  have hX: "rasterize_polygons rect_covers [feature_B, feature_X] grid_2x2 (2, 2) ''original_dn''
              = Inr [[0, 0], [255, 255]]
     \<and> [feature_B, feature_X] = [feature_B] @ feature_X # []
     \<and> footprint_claims rect_covers grid_2x2 feature_X (1, 0)
     \<and> (\<forall>f \<in> set []. \<not> footprint_claims rect_covers grid_2x2 f (1, 0))
     \<and> int 1 < fst (2 :: int, 2 :: int) \<and> int 0 < snd (2 :: int, 2 :: int)"
    using bx claims by simp
  have hM: "rasterize_polygons rect_covers [feature_M] grid_2x2 (2, 2) ''original_dn''
              = Inr [[0, 0], [0, 0]]
     \<and> [feature_M] = [] @ feature_M # []
     \<and> footprint_claims rect_covers grid_2x2 feature_M (1, 1)
     \<and> (\<forall>f \<in> set []. \<not> footprint_claims rect_covers grid_2x2 f (1, 1))
     \<and> int 1 < fst (2 :: int, 2 :: int) \<and> int 1 < snd (2 :: int, 2 :: int)"
    using m claims by simp
  note tB = original_dn_verbatim_or_saturated
    [of "[feature_B, feature_X]" "(2, 2)" rect_covers grid_2x2 "[[0, 0], [255, 255]]"
        "[]" feature_B "[feature_X]" 1 1, THEN conjunct2, THEN conjunct2, rule_format, OF hB]
  note tX = original_dn_verbatim_or_saturated
    [of "[feature_B, feature_X]" "(2, 2)" rect_covers grid_2x2 "[[0, 0], [255, 255]]"
        "[feature_B]" feature_X "[]" 1 0, THEN conjunct2, THEN conjunct2, rule_format, OF hX]
  note tM = original_dn_verbatim_or_saturated
    [of "[feature_M]" "(2, 2)" rect_covers grid_2x2 "[[0, 0], [0, 0]]"
        "[]" feature_M "[]" 1 1, THEN conjunct2, THEN conjunct2, rule_format, OF hM]
  from tB dns(1) have 1: "uint ([[0, 0], [255, 255 :: 8 word]] ! 1 ! 1) = DN feature_B" by blast
  from tX dns(2) have 2: "uint ([[0, 0], [255, 255 :: 8 word]] ! 1 ! 0) = 255" by blast
  from tM dns(3) have 3: "uint ([[0, 0], [0, 0 :: 8 word]] ! 1 ! 1) = 0" by blast
  from pos bx m claims dns 1 2 3 show ?thesis by blast
qed

section \<open>Grid dimensions\<close>



text \<open>
  C4, as stated, does not hold: for a collection whose bounding box has zero width the
  computed number of columns is 0, not 1.
\<close>

theorem degenerate_extent_counterexample:
  "union_bbox [feature_L] = (0, 0, 0, 100)
   \<and> calculate_raster_params [feature_L] 50
      = Inr ((0, 0, 0, 100), (2, 0),
             \<lparr>aff_a = None, aff_b = Some 0, aff_c = Some 0,
              aff_d = None, aff_e = Some (- 50), aff_f = Some 100\<rparr>)"
  by (simp add: calc_defs union_bbox_def all_vertices_def sample_defs)

text \<open>
  C4, amended. For every collection with at least one vertex and every resolution
  \<open>r > 0\<close> the dimensions are not clamped: whenever the computation returns, \<open>cols\<close> and
  \<open>rows\<close> are the ceilings of the double quotients of the extents by the resolution, they
  are never negative, \<open>cols\<close> is 0 when the bounding box has zero width and \<open>rows\<close> is 0
  when it has zero height. The computation fails only with OverflowError, when an extent or
  a quotient overflows the doubles, which a zero extent never does: a box of zero width
  and zero height gives the dimensions (0, 0).
\<close>

theorem grid_dimensions_not_clamped:
  assumes "0 < r" and "all_vertices gdf \<noteq> []"
    and "union_bbox gdf = (minX, minY, maxX, maxY)"
  shows "(\<forall>bounds rows cols transform.
            calculate_raster_params gdf r = Inr (bounds, (rows, cols), transform) \<longrightarrow>
              (\<exists>width qx. np_subtract maxX minX = Some width \<and> np_divide width r = Some qx
                          \<and> cols = \<lceil>qx\<rceil>)
              \<and> (\<exists>height qy. np_subtract maxY minY = Some height \<and> np_divide height r = Some qy
                          \<and> rows = \<lceil>qy\<rceil>)
              \<and> 0 \<le> rows \<and> 0 \<le> cols
              \<and> (maxX = minX \<longrightarrow> cols = 0) \<and> (maxY = minY \<longrightarrow> rows = 0))
       \<and> (\<forall>e. calculate_raster_params gdf r = Inl e \<longrightarrow>
              e = OverflowError ''cannot convert float infinity to integer''
              \<and> (maxX \<noteq> minX \<or> maxY \<noteq> minY))
       \<and> (maxX = minX \<and> maxY = minY \<longrightarrow>
              calculate_raster_params gdf r
              = Inr ((minX, minY, maxX, maxY), (0, 0), from_bounds minX minY maxX maxY 0 0))"
proof -
  have r: "r \<noteq> 0" using assms(1) by simp
  note calc = calculate_raster_params_vertices [OF assms(2,3), of r]
  have ord: "minX \<le> maxX" "minY \<le> maxY"
    using union_bbox_ordered [OF assms(2,3)] by simp_all
  have returned: "(\<exists>width qx. np_subtract maxX minX = Some width \<and> np_divide width r = Some qx
                          \<and> cols = \<lceil>qx\<rceil>)
              \<and> (\<exists>height qy. np_subtract maxY minY = Some height \<and> np_divide height r = Some qy
                          \<and> rows = \<lceil>qy\<rceil>)
              \<and> 0 \<le> rows \<and> 0 \<le> cols
              \<and> (maxX = minX \<longrightarrow> cols = 0) \<and> (maxY = minY \<longrightarrow> rows = 0)"
    if ok: "calculate_raster_params gdf r = Inr (bounds, (rows, cols), transform)"
    for bounds rows cols transform
  proof -
    from ok calc have c: "int_ceil_div (np_subtract maxX minX) r = Inr cols"
      and rw: "int_ceil_div (np_subtract maxY minY) r = Inr rows"
      by (simp_all split: sum.splits)
    from int_ceil_div_Inr [OF c] have 1: "\<exists>width qx. np_subtract maxX minX = Some width
        \<and> np_divide width r = Some qx \<and> cols = \<lceil>qx\<rceil>" by blast
    from int_ceil_div_Inr [OF rw] have 2: "\<exists>height qy. np_subtract maxY minY = Some height
        \<and> np_divide height r = Some qy \<and> rows = \<lceil>qy\<rceil>" by blast
    from int_ceil_div_sign [OF c ord(1)] int_ceil_div_sign [OF rw ord(2)] assms(1)
    have 3: "0 \<le> rows \<and> 0 \<le> cols" by simp
    have 4: "maxX = minX \<longrightarrow> cols = 0" using c int_ceil_div_degenerate [OF r, of minX] by auto
    have 5: "maxY = minY \<longrightarrow> rows = 0" using rw int_ceil_div_degenerate [OF r, of minY] by auto
    from 1 2 3 4 5 show ?thesis by blast
  qed
  have degenerate: "calculate_raster_params gdf r
              = Inr ((minX, minY, maxX, maxY), (0, 0), from_bounds minX minY maxX maxY 0 0)"
    if "maxX = minX \<and> maxY = minY"
    unfolding calc using that int_ceil_div_degenerate [OF r] by simp
  have failed: "e = OverflowError ''cannot convert float infinity to integer''
              \<and> (maxX \<noteq> minX \<or> maxY \<noteq> minY)"
    if bad: "calculate_raster_params gdf r = Inl e" for e
  proof (cases "int_ceil_div (np_subtract maxX minX) r")
    case (Inl e')
    with bad calc have "e' = e" by simp
    with int_ceil_div_Inl [OF Inl r] have e: "e = OverflowError ''cannot convert float infinity to integer''"
      by simp
    have "maxX \<noteq> minX" using Inl int_ceil_div_degenerate [OF r, of minX] by auto
    with e show ?thesis by simp
  next
    case (Inr cols)
    with bad calc obtain e' where Inl: "int_ceil_div (np_subtract maxY minY) r = Inl e'"
      and "e' = e" by (cases "int_ceil_div (np_subtract maxY minY) r") simp_all
    with int_ceil_div_Inl [OF Inl r] have e: "e = OverflowError ''cannot convert float infinity to integer''"
      by simp
    have "maxY \<noteq> minY" using Inl int_ceil_div_degenerate [OF r, of minY] by auto
    with e show ?thesis by simp
  qed
  from returned failed degenerate show ?thesis by blast
qed

theorem grid_dimensions_not_clamped_witness:
  "(0 :: real) < 50 \<and> all_vertices [feature_L] \<noteq> []
   \<and> union_bbox [feature_L] = (0, 0, 0, 100)
   \<and> calculate_raster_params [feature_L] 50
      = Inr ((0, 0, 0, 100), (2, 0),
             \<lparr>aff_a = None, aff_b = Some 0, aff_c = Some 0,
              aff_d = None, aff_e = Some (- 50), aff_f = Some 100\<rparr>)
   \<and> (\<exists>width qx. np_subtract 0 0 = Some width \<and> np_divide width 50 = Some qx
                  \<and> (0 :: int) = \<lceil>qx\<rceil>)
   \<and> (\<exists>height qy. np_subtract 100 0 = Some height \<and> np_divide height 50 = Some qy
                  \<and> (2 :: int) = \<lceil>qy\<rceil>)"
proof -
  have r: "(0 :: real) < 50" by simp
  have vs: "all_vertices [feature_L] \<noteq> []"
    by (simp add: all_vertices_def sample_defs)
  have ub: "union_bbox [feature_L] = (0, 0, 0, 100)"
    by (simp add: union_bbox_def all_vertices_def sample_defs)
  have calc: "calculate_raster_params [feature_L] 50
      = Inr ((0, 0, 0, 100), (2, 0),
             \<lparr>aff_a = None, aff_b = Some 0, aff_c = Some 0,
              aff_d = None, aff_e = Some (- 50), aff_f = Some 100\<rparr>)"
    by (simp add: calc_defs sample_defs)
  from grid_dimensions_not_clamped [OF r vs ub, THEN conjunct1, rule_format, OF calc]
  have "(\<exists>width qx. np_subtract 0 0 = Some width \<and> np_divide width 50 = Some qx
                  \<and> (0 :: int) = \<lceil>qx\<rceil>)
   \<and> (\<exists>height qy. np_subtract 100 0 = Some height \<and> np_divide height 50 = Some qy
                  \<and> (2 :: int) = \<lceil>qy\<rceil>)" by blast
  with r vs ub calc show ?thesis by blast
qed

section \<open>The affine transform\<close>

text \<open>
  C5. The transform is anchored at \<open>(minX, maxY)\<close>, but it is built from the bounds and
  the rounded-up dimensions, so the pixel size is the extent divided by the number of
  pixels. For a square of side 75 and resolution 50 the grid is 2 by 2 and the pixel size
  is 37.5, not the resolution 50.
\<close>

theorem pixel_size_differs_from_resolution:
  "calculate_raster_params [feature_S] 50
     = Inr ((0, 0, 75, 75), (2, 2),
            \<lparr>aff_a = Some (75 / 2), aff_b = Some 0, aff_c = Some 0,
             aff_d = Some 0, aff_e = Some (- (75 / 2)), aff_f = Some 75\<rparr>)
   \<and> (75 / 2 :: real) \<noteq> 50"
  by (simp add: calc_defs sample_defs)

section \<open>Non-positive resolution\<close>




section \<open>Empty result after the threshold\<close>

text \<open>
  C8, as stated, does not hold for every non-empty collection: a collection whose features
  all lack a geometry is empty after the null removal, and the pipeline ends with the exit
  of the crop stage (lines 509-512), although every DN is below the threshold.
\<close>

theorem empty_after_crop_counterexample:
  "[feature_N] \<noteq> [] \<and> DN feature_N < DN_THRESHOLD script_config
   \<and> main rect_intersects rect_covers range_writer script_config [feature_N]
       = Inl NoFeaturesAfterCropping"
  by (simp add: main_unfold filter_defs feature_N_def script_config_def)

text \<open>
  C8, amended. When the collection that reaches the threshold stage (the features left by
  the null removal and the crop) is not empty and each of its features has a DN strictly
  below the threshold, the threshold filter leaves no feature and the pipeline ends with
  the exit of lines 519-522, before the grid computation and the rasterization: the result
  is the same for every resolution and every encoding policy. When no feature reaches the
  threshold stage, the pipeline ends with the exit of the crop stage instead.
\<close>

theorem empty_after_threshold:
  "(crop_to_bbox ix (filter_null_geometries loaded) (CROP_BBOX cfg) \<noteq> []
      \<and> (\<forall>f \<in> set (crop_to_bbox ix (filter_null_geometries loaded) (CROP_BBOX cfg)).
            DN f < DN_THRESHOLD cfg)
      \<longrightarrow> filter_by_dn_threshold
             (crop_to_bbox ix (filter_null_geometries loaded) (CROP_BBOX cfg))
             (DN_THRESHOLD cfg) = []
          \<and> main ix cv wr cfg loaded = Inl (NoFeaturesAfterDNFilter (DN_THRESHOLD cfg))
          \<and> (\<forall>res vt. main ix cv wr (cfg\<lparr>PIXEL_RESOLUTION := res, OUTPUT_VALUE_TYPE := vt\<rparr>) loaded
                         = Inl (NoFeaturesAfterDNFilter (DN_THRESHOLD cfg))))
   \<and> (crop_to_bbox ix (filter_null_geometries loaded) (CROP_BBOX cfg) = []
      \<longrightarrow> main ix cv wr cfg loaded = Inl NoFeaturesAfterCropping)"
proof -
  let ?cropped = "crop_to_bbox ix (filter_null_geometries loaded) (CROP_BBOX cfg)"
  have threshold: "filter_by_dn_threshold ?cropped (DN_THRESHOLD cfg) = []
          \<and> main ix cv wr cfg loaded = Inl (NoFeaturesAfterDNFilter (DN_THRESHOLD cfg))
          \<and> (\<forall>res vt. main ix cv wr (cfg\<lparr>PIXEL_RESOLUTION := res, OUTPUT_VALUE_TYPE := vt\<rparr>) loaded
                         = Inl (NoFeaturesAfterDNFilter (DN_THRESHOLD cfg)))"
    if a: "?cropped \<noteq> [] \<and> (\<forall>f \<in> set ?cropped. DN f < DN_THRESHOLD cfg)"
  proof -
    from a have "\<forall>f \<in> set ?cropped. \<not> DN_THRESHOLD cfg \<le> DN f" by fastforce
    then have empty: "filter_by_dn_threshold ?cropped (DN_THRESHOLD cfg) = []"
      by (simp add: filter_by_dn_threshold_def)
    with a show ?thesis by (simp add: main_unfold)
  qed
  have crop: "main ix cv wr cfg loaded = Inl NoFeaturesAfterCropping" if "?cropped = []"
    using that by (simp add: main_unfold)
  from threshold crop show ?thesis by blast
qed

theorem empty_after_threshold_witness:
  "crop_to_bbox rect_intersects (filter_null_geometries [\<lparr>geometry = None, DN = 255\<rparr>, feature_A])
     (CROP_BBOX (script_config\<lparr>DN_THRESHOLD := 254\<rparr>)) = [feature_A]
   \<and> [feature_A] \<noteq> []
   \<and> DN feature_A < DN_THRESHOLD (script_config\<lparr>DN_THRESHOLD := 254\<rparr>)
   \<and> main rect_intersects rect_covers range_writer (script_config\<lparr>DN_THRESHOLD := 254\<rparr>)
        [\<lparr>geometry = None, DN = 255\<rparr>, feature_A]
       = Inl (NoFeaturesAfterDNFilter 254)
   \<and> crop_to_bbox rect_intersects (filter_null_geometries [feature_N]) (CROP_BBOX script_config) = []
   \<and> main rect_intersects rect_covers range_writer script_config [feature_N]
       = Inl NoFeaturesAfterCropping"
proof -
  let ?cfg = "script_config\<lparr>DN_THRESHOLD := 254\<rparr>"
  let ?loaded = "[\<lparr>geometry = None, DN = 255\<rparr>, feature_A]"
  have crop: "crop_to_bbox rect_intersects (filter_null_geometries ?loaded) (CROP_BBOX ?cfg)
              = [feature_A]"
    by (simp add: filter_defs feature_A_def script_config_def)
  have low: "DN feature_A < DN_THRESHOLD ?cfg"
    by (simp add: feature_A_def script_config_def)
  have t: "DN_THRESHOLD ?cfg = 254" by (simp add: script_config_def)
  have hyp: "crop_to_bbox rect_intersects (filter_null_geometries ?loaded) (CROP_BBOX ?cfg) \<noteq> []
      \<and> (\<forall>f \<in> set (crop_to_bbox rect_intersects (filter_null_geometries ?loaded) (CROP_BBOX ?cfg)).
            DN f < DN_THRESHOLD ?cfg)"
    unfolding crop using low by simp
  from empty_after_threshold [of rect_intersects ?loaded ?cfg rect_covers range_writer,
      THEN conjunct1, rule_format, OF hyp]
  have m: "main rect_intersects rect_covers range_writer ?cfg ?loaded
       = Inl (NoFeaturesAfterDNFilter 254)" unfolding t by blast
  have cropN: "crop_to_bbox rect_intersects (filter_null_geometries [feature_N])
                 (CROP_BBOX script_config) = []"
    by (simp add: filter_defs feature_N_def script_config_def)
  from empty_after_threshold [of rect_intersects "[feature_N]" script_config rect_covers
      range_writer, THEN conjunct2, rule_format, OF cropN]
  have mN: "main rect_intersects rect_covers range_writer script_config [feature_N]
       = Inl NoFeaturesAfterCropping" .
  from crop low m cropN mN show ?thesis by simp
qed

section \<open>The fill value\<close>

text \<open>
  C10. The rasterization starts from an array filled with 0, so every pixel of the grid
  that no feature's footprint claims is 0 in the result, for every collection, grid and
  encoding policy. The configured \<^verbatim>\<open>NODATA_VALUE\<close> plays no part in it: it only becomes the
  \<^verbatim>\<open>nodata\<close> entry of the profile handed to the GeoTIFF writer. With another
  \<^verbatim>\<open>NODATA_VALUE\<close> the pipeline hands the same array and the same profile but for that
  entry to the writer, and its result is the writer's.
\<close>

theorem fill_is_zero_not_nodata:
  "(rasterize_polygons covers gdf tr shape vt = Inr arr
      \<and> int r < fst shape \<and> int c < snd shape
      \<and> (\<forall>f \<in> set gdf. \<not> footprint_claims covers tr f (r, c))
      \<longrightarrow> arr ! r ! c = 0)
   \<and> (main ix covers wr cfg loaded = Inr (prof, out) \<longrightarrow>
        prof_nodata prof = NODATA_VALUE cfg
        \<and> (\<forall>i j. i < prof_height prof \<and> j < prof_width prof
                  \<and> (\<forall>f \<in> set loaded. \<not> footprint_claims covers (prof_transform prof) f (i, j))
                  \<longrightarrow> out ! i ! j = 0)
        \<and> (\<forall>n. main ix covers wr (cfg\<lparr>NODATA_VALUE := n\<rparr>) loaded
                  = (case wr (prof\<lparr>prof_nodata := n\<rparr>) out of
                       Some e \<Rightarrow> Inl e
                     | None \<Rightarrow> Inr (prof\<lparr>prof_nodata := n\<rparr>, out))))"
proof -
  have part1: "arr ! r ! c = 0"
    if "rasterize_polygons covers gdf tr shape vt = Inr arr
      \<and> int r < fst shape \<and> int c < snd shape
      \<and> (\<forall>f \<in> set gdf. \<not> footprint_claims covers tr f (r, c))"
    using that by (intro rasterize_polygons_unclaimed [of covers gdf tr shape vt arr r c]) simp_all
  have part2: "prof_nodata prof = NODATA_VALUE cfg
        \<and> (\<forall>i j. i < prof_height prof \<and> j < prof_width prof
                  \<and> (\<forall>f \<in> set loaded. \<not> footprint_claims covers (prof_transform prof) f (i, j))
                  \<longrightarrow> out ! i ! j = 0)
        \<and> (\<forall>n. main ix covers wr (cfg\<lparr>NODATA_VALUE := n\<rparr>) loaded
                  = (case wr (prof\<lparr>prof_nodata := n\<rparr>) out of
                       Some e \<Rightarrow> Inl e
                     | None \<Rightarrow> Inr (prof\<lparr>prof_nodata := n\<rparr>, out)))"
    if m: "main ix covers wr cfg loaded = Inr (prof, out)"
  proof -
    let ?cropped = "crop_to_bbox ix (filter_null_geometries loaded) (CROP_BBOX cfg)"
    let ?gdf = "filter_by_dn_threshold ?cropped (DN_THRESHOLD cfg)"
    from main_Inr [OF m] obtain bounds shape' tr' where
      ne: "?gdf \<noteq> []"
      and calc: "calculate_raster_params ?gdf (PIXEL_RESOLUTION cfg) = Inr (bounds, shape', tr')"
      and rast: "rasterize_polygons covers ?gdf tr' shape' (OUTPUT_VALUE_TYPE cfg) = Inr out"
      and prof: "prof = geotiff_profile out tr' (CRS cfg) (NODATA_VALUE cfg) (COMPRESSION cfg)"
      by blast
    have nodata: "prof_nodata prof = NODATA_VALUE cfg" unfolding prof by (simp add: geotiff_profile_def)
    have cropne: "?cropped \<noteq> []" using ne by (auto simp: filter_by_dn_threshold_def)
    have other: "geotiff_profile out tr' (CRS cfg) n (COMPRESSION cfg) = prof\<lparr>prof_nodata := n\<rparr>" for n
      unfolding prof by (simp add: geotiff_profile_def)
    have indep: "main ix covers wr (cfg\<lparr>NODATA_VALUE := n\<rparr>) loaded
                  = (case wr (prof\<lparr>prof_nodata := n\<rparr>) out of
                       Some e \<Rightarrow> Inl e
                     | None \<Rightarrow> Inr (prof\<lparr>prof_nodata := n\<rparr>, out))" for n
      using ne cropne calc rast by (simp add: main_unfold write_geotiff_def other Let_def)
    from rasterize_polygons_dims [OF rast]
    have dims: "length out = nat (fst shape')" "\<forall>r < length out. length (out ! r) = nat (snd shape')"
      "0 < fst shape'" by simp_all
    have h: "prof_height prof = length out" and tr: "prof_transform prof = tr'"
      unfolding prof by (simp_all add: geotiff_profile_def)
    have "out \<noteq> []" using dims(1,3) by auto
    then have "prof_width prof = length (out ! 0)"
      unfolding prof by (cases out) (simp_all add: geotiff_profile_def)
    with dims have w: "prof_width prof = nat (snd shape')" by simp
    have zero: "out ! i ! j = 0"
      if a: "i < prof_height prof \<and> j < prof_width prof
                  \<and> (\<forall>f \<in> set loaded. \<not> footprint_claims covers (prof_transform prof) f (i, j))"
      for i j
    proof -
      from a have none: "\<forall>f \<in> set ?gdf. \<not> footprint_claims covers tr' f (i, j)"
        using survivors_subset [of ix loaded "CROP_BBOX cfg" "DN_THRESHOLD cfg"] tr by auto
      from a h w dims have "i < nat (fst shape')" "j < nat (snd shape')" by simp_all
      then have "int i < fst shape'" "int j < snd shape'" by linarith+
      with rast none show ?thesis by (intro rasterize_polygons_unclaimed [OF rast]) simp_all
    qed
    from nodata indep zero show ?thesis by blast
  qed
  from part1 part2 show ?thesis by blast
qed

theorem fill_is_zero_not_nodata_witness:
  "rasterize_polygons rect_covers [feature_D, feature_B] grid_2x2 (2, 2) ''original_dn''
     = Inr [[253, 0], [0, 255]]
   \<and> int 0 < fst (2 :: int, 2 :: int) \<and> int 1 < snd (2 :: int, 2 :: int)
   \<and> \<not> footprint_claims rect_covers grid_2x2 feature_D (0, 1)
   \<and> \<not> footprint_claims rect_covers grid_2x2 feature_B (0, 1)
   \<and> [[253, 0], [0, 255 :: 8 word]] ! 0 ! 1 = 0
   \<and> main rect_intersects rect_covers range_writer (script_config\<lparr>NODATA_VALUE := 7\<rparr>)
        [feature_D, feature_B]
       = Inr (\<lparr>prof_driver = ''GTiff'', prof_dtype = ''uint8'', prof_count = 1, prof_width = 2,
               prof_height = 2, prof_transform = grid_2x2, prof_crs = ''EPSG:32631'',
               prof_nodata = 7, prof_compress = ''lzw'', prof_tiled = True,
               prof_blockxsize = 256, prof_blockysize = 256\<rparr>,
              [[253, 0], [0, 255]])
   \<and> main rect_intersects rect_covers range_writer
        (script_config\<lparr>NODATA_VALUE := 7, NODATA_VALUE := 0\<rparr>) [feature_D, feature_B]
       = Inr (\<lparr>prof_driver = ''GTiff'', prof_dtype = ''uint8'', prof_count = 1, prof_width = 2,
               prof_height = 2, prof_transform = grid_2x2, prof_crs = ''EPSG:32631'',
               prof_nodata = 0, prof_compress = ''lzw'', prof_tiled = True,
               prof_blockxsize = 256, prof_blockysize = 256\<rparr>,
              [[253, 0], [0, 255]])
   \<and> main rect_intersects rect_covers range_writer
        (script_config\<lparr>NODATA_VALUE := 7, NODATA_VALUE := 300\<rparr>) [feature_D, feature_B]
       = Inl (ValueError ''Given nodata value is beyond the valid range of its data type'')"
proof -
  let ?prof = "\<lparr>prof_driver = ''GTiff'', prof_dtype = ''uint8'', prof_count = 1, prof_width = 2,
               prof_height = 2, prof_transform = grid_2x2, prof_crs = ''EPSG:32631'',
               prof_nodata = 7, prof_compress = ''lzw'', prof_tiled = True,
               prof_blockxsize = 256, prof_blockysize = 256\<rparr>"
  have rast: "rasterize_polygons rect_covers [feature_D, feature_B] grid_2x2 (2, 2) ''original_dn''
     = Inr [[253, 0], [0, 255]]"
    by (simp add: raster_defs upt_0_2 sample_defs)
  have none: "\<not> footprint_claims rect_covers grid_2x2 feature_D (0, 1)"
    "\<not> footprint_claims rect_covers grid_2x2 feature_B (0, 1)"
    by (simp_all add: sample_defs)
  have calc: "calculate_raster_params [feature_D, feature_B] 50
                = Inr ((0, 0, 100, 100), (2, 2), grid_2x2)"
    by (simp add: calc_defs sample_defs)
  have keep: "filter_by_dn_threshold
                (crop_to_bbox rect_intersects (filter_null_geometries [feature_D, feature_B]) None) 253
              = [feature_D, feature_B]"
    by (simp add: filter_defs feature_D_def feature_B_def)
  have crop: "crop_to_bbox rect_intersects (filter_null_geometries [feature_D, feature_B]) None
              = [feature_D, feature_B]"
    by (simp add: filter_defs feature_D_def feature_B_def)
  have m: "main rect_intersects rect_covers range_writer (script_config\<lparr>NODATA_VALUE := 7\<rparr>)
             [feature_D, feature_B]
       = Inr (?prof, [[253, 0], [0, 255]])"
    using crop keep calc rast
    by (simp add: main_unfold script_config_def write_geotiff_def geotiff_profile_def
        range_writer_def)
  have hyp: "rasterize_polygons rect_covers [feature_D, feature_B] grid_2x2 (2, 2) ''original_dn''
       = Inr [[253, 0], [0, 255]]
     \<and> int 0 < fst (2 :: int, 2 :: int) \<and> int 1 < snd (2 :: int, 2 :: int)
     \<and> (\<forall>f \<in> set [feature_D, feature_B]. \<not> footprint_claims rect_covers grid_2x2 f (0, 1))"
    using rast none by simp
  note t = fill_is_zero_not_nodata
    [of rect_covers "[feature_D, feature_B]" grid_2x2 "(2, 2)" "''original_dn''"
        "[[253, 0], [0, 255]]" 0 1 rect_intersects range_writer
        "script_config\<lparr>NODATA_VALUE := 7\<rparr>" "[feature_D, feature_B]" ?prof
        "[[253, 0], [0, 255]]"]
  from t hyp have px: "[[253, 0], [0, 255 :: 8 word]] ! 0 ! 1 = 0" by blast
  from t m have all: "\<forall>n. main rect_intersects rect_covers range_writer
                      (script_config\<lparr>NODATA_VALUE := 7\<rparr>\<lparr>NODATA_VALUE := n\<rparr>) [feature_D, feature_B]
                   = (case range_writer (?prof\<lparr>prof_nodata := n\<rparr>) [[253, 0], [0, 255]] of
                        Some e \<Rightarrow> Inl e
                      | None \<Rightarrow> Inr (?prof\<lparr>prof_nodata := n\<rparr>, [[253, 0], [0, 255]]))" by blast
  from all [THEN spec, of 0]
  have m0: "main rect_intersects rect_covers range_writer
        (script_config\<lparr>NODATA_VALUE := 7, NODATA_VALUE := 0\<rparr>) [feature_D, feature_B]
       = Inr (\<lparr>prof_driver = ''GTiff'', prof_dtype = ''uint8'', prof_count = 1, prof_width = 2,
               prof_height = 2, prof_transform = grid_2x2, prof_crs = ''EPSG:32631'',
               prof_nodata = 0, prof_compress = ''lzw'', prof_tiled = True,
               prof_blockxsize = 256, prof_blockysize = 256\<rparr>,
              [[253, 0], [0, 255]])" by (simp add: range_writer_def)
  from all [THEN spec, of 300]
  have m300: "main rect_intersects rect_covers range_writer
        (script_config\<lparr>NODATA_VALUE := 7, NODATA_VALUE := 300\<rparr>) [feature_D, feature_B]
       = Inl (ValueError ''Given nodata value is beyond the valid range of its data type'')"
    by (simp add: range_writer_def)
  from rast none px m m0 m300 show ?thesis by simp
qed

end
